theory Spec2Isabelle
  imports Complex_Main
begin

section \<open>Conventions of the embedding\<close>

text \<open>
  The functions below are taken from \<^verbatim>\<open>src/mdsine2/posterior.py\<close> and
  \<^verbatim>\<open>src/clv/plot_prediction_results.py\<close>.  Python and numpy floating-point numbers
  are read as real numbers: every statement about a numeric result is a statement about the
  formula the code evaluates, not about its rounding.  Where numpy would produce an
  infinity or a NaN without raising (a division by zero, the mean of an empty array, the
  logarithm of a number that is not positive) the real numbers have no value to offer;
  the statements below carry the hypotheses that keep such inputs out.  Places where the
  Python raises are branches of the model that return \<open>Inl\<close> of the exception.
\<close>

datatype py_error =
    ZeroDivisionError
  | ValueError
  | TypeError
  | IndexError
  | AttributeError
  | FileNotFoundError
  | NotImplementedError
  | LinAlgError string

subsection \<open>The \<^verbatim>\<open>math\<close> module\<close>

text \<open>\<^verbatim>\<open>a / b\<close> on Python numbers raises when the divisor is zero.\<close>

definition py_truediv :: "real \<Rightarrow> real \<Rightarrow> py_error + real" where
  "py_truediv a b = (if b = 0 then Inl ZeroDivisionError else Inr (a / b))"

text \<open>\<^verbatim>\<open>math.log\<close> raises a \<^verbatim>\<open>ValueError\<close> outside the positive reals.\<close>

definition math_log :: "real \<Rightarrow> py_error + real" where
  "math_log x = (if x \<le> 0 then Inl ValueError else Inr (ln x))"

text \<open>
  \<^verbatim>\<open>math.lgamma\<close> is the logarithm of the absolute value of the Gamma function, which
  the library this development builds on does not define.  Its values are a parameter
  \<open>lg\<close> of every function that calls it; the poles at the non-positive integers, where
  Python raises a \<^verbatim>\<open>ValueError\<close>, are written out.
\<close>

definition math_lgamma :: "(real \<Rightarrow> real) \<Rightarrow> real \<Rightarrow> py_error + real" where
  "math_lgamma lg x =
     (if x \<le> 0 \<and> of_int \<lfloor>x\<rfloor> = x then Inl ValueError else Inr (lg x))"

text \<open>Sequencing of computations that may raise.\<close>

definition bind_err :: "py_error + 'a \<Rightarrow> ('a \<Rightarrow> py_error + 'b) \<Rightarrow> py_error + 'b" where
  "bind_err m f = (case m of Inl e \<Rightarrow> Inl e | Inr v \<Rightarrow> f v)"

subsection \<open>numpy arrays\<close>

text \<open>
  numpy's elementwise product of two one-dimensional arrays: equal lengths multiply
  entry by entry, an array of length one is broadcast over the other, any other pair of
  lengths raises \<^verbatim>\<open>ValueError\<close>.
\<close>

definition np_multiply :: "real list \<Rightarrow> real list \<Rightarrow> py_error + real list" where
  "np_multiply a b =
     (if length a = length b then Inr (map2 (*) a b)
      else if length a = 1 then Inr (map (\<lambda>y. hd a * y) b)
      else if length b = 1 then Inr (map (\<lambda>x. x * hd b) a)
      else Inl ValueError)"

section \<open>Negative-binomial log-likelihoods\<close>

text \<open>
  \<^verbatim>\<open>negbin_loglikelihood(k, m, dispersion)\<close>:
  \<^verbatim>\<open>r = 1/dispersion\<close> and then
  \<^verbatim>\<open>lgamma(k+r) - lgamma(k+1) - lgamma(r) + r*(log(r) - log(r+m)) + k*(log(m) - log(r+m))\<close>.
  Python evaluates the operands from left to right, so the first operand that raises
  decides the exception.
\<close>

definition negbin_loglikelihood ::
  "(real \<Rightarrow> real) \<Rightarrow> real \<Rightarrow> real \<Rightarrow> real \<Rightarrow> py_error + real" where
  "negbin_loglikelihood lg k m dispersion =
     bind_err (py_truediv 1 dispersion) (\<lambda>r.
     bind_err (math_lgamma lg (k + r)) (\<lambda>g1.
     bind_err (math_lgamma lg (k + 1)) (\<lambda>g2.
     bind_err (math_lgamma lg r) (\<lambda>g3.
     bind_err (math_log r) (\<lambda>l1.
     bind_err (math_log (r + m)) (\<lambda>l2.
     bind_err (math_log m) (\<lambda>l3.
     bind_err (math_log (r + m)) (\<lambda>l4.
       Inr (g1 - g2 - g3 + r * (l1 - l2) + k * (l3 - l4))))))))))"

text \<open>
  \<^verbatim>\<open>negbin_loglikelihood_MH_condensed\<close> and its uncompiled twin
  \<^verbatim>\<open>negbin_loglikelihood_MH_condensed_not_fast\<close> have the same body:
  \<^verbatim>\<open>r = 1/dispersion; rm = r+m\<close> and
  \<^verbatim>\<open>lgamma(k+r) - lgamma(r) + r*(log(r) - log(rm)) + k*(log(m) - log(rm))\<close>.
  The first is compiled by numba, and the callers fall back to the second when it fails;
  the model raises as the uncompiled one does.
\<close>

definition negbin_loglikelihood_MH_condensed ::
  "(real \<Rightarrow> real) \<Rightarrow> real \<Rightarrow> real \<Rightarrow> real \<Rightarrow> py_error + real" where
  "negbin_loglikelihood_MH_condensed lg k m dispersion =
     bind_err (py_truediv 1 dispersion) (\<lambda>r.
     let rm = r + m in
     bind_err (math_lgamma lg (k + r)) (\<lambda>g1.
     bind_err (math_lgamma lg r) (\<lambda>g3.
     bind_err (math_log r) (\<lambda>l1.
     bind_err (math_log rm) (\<lambda>l2.
     bind_err (math_log m) (\<lambda>l3.
     bind_err (math_log rm) (\<lambda>l4.
       Inr (g1 - g3 + r * (l1 - l2) + k * (l3 - l4)))))))))"

text \<open>
  The values of \<^verbatim>\<open>lgamma\<close> at the positive integers, \<open>ln ((n - 1)!)\<close>, used where a
  statement is evaluated at concrete integer arguments.
\<close>

definition lgamma_at_integers :: "real \<Rightarrow> real" where
  "lgamma_at_integers x = ln (fact (nat \<lfloor>x\<rfloor> - 1))"

section \<open>Expected number of clusters\<close>

text \<open>
  \<^verbatim>\<open>expected_n_clusters(G)\<close> reads two things from the graph: the number of taxa
  \<^verbatim>\<open>G.data.n_asvs\<close> and the mean of the prior of the concentration parameter,
  \<^verbatim>\<open>G[STRNAMES.CONCENTRATION].prior.mean()\<close>.  It returns
  \<^verbatim>\<open>conc * np.log((G.data.n_asvs + conc) / conc)\<close>.
\<close>

record clustering_graph =
  data_n_asvs :: nat
  concentration_prior_mean :: real

definition expected_n_clusters :: "clustering_graph \<Rightarrow> real" where
  "expected_n_clusters G =
     (let conc = concentration_prior_mean G
      in conc * ln ((real (data_n_asvs G) + conc) / conc))"

section \<open>The latent-trajectory filter\<close>

text \<open>
  Python indexing of a sequence: a negative index counts from the end, an index outside
  the sequence raises \<^verbatim>\<open>IndexError\<close>.
\<close>

definition py_index :: "'a list \<Rightarrow> int \<Rightarrow> py_error + 'a" where
  "py_index xs i =
     (if 0 \<le> i \<and> i < int (length xs) then Inr (xs ! nat i)
      else if i < 0 \<and> - int (length xs) \<le> i then Inr (xs ! nat (int (length xs) + i))
      else Inl IndexError)"






text \<open>
  The constructor also fills \<^verbatim>\<open>self.t2tidx[t] = tidx\<close> for \<^verbatim>\<open>tidx, t\<close> in
  \<^verbatim>\<open>enumerate(self.times)\<close>: a dictionary from the sampled times to their indices.
\<close>

definition t2tidx :: "real list \<Rightarrow> real \<rightharpoonup> nat" where
  "t2tidx ts = fold (\<lambda>(tidx, t) d. d(t \<mapsto> tidx)) (enumerate 0 ts) Map.empty"

text \<open>
  \<^verbatim>\<open>np.searchsorted(self.times, t)\<close> on the sorted array of the times: the number of
  entries below \<open>t\<close>.  \<^verbatim>\<open>np.max\<close> and \<^verbatim>\<open>np.min\<close> raise \<^verbatim>\<open>ValueError\<close> on an empty array.
\<close>

definition searchsorted :: "real list \<Rightarrow> real \<Rightarrow> int" where
  "searchsorted ts t = int (length (filter (\<lambda>x. x < t) ts))"

definition np_max :: "real list \<Rightarrow> py_error + real" where
  "np_max xs = (if xs = [] then Inl ValueError else Inr (Max (set xs)))"

definition np_min :: "real list \<Rightarrow> py_error + real" where
  "np_min xs = (if xs = [] then Inl ValueError else Inr (Min (set xs)))"

text \<open>
  Assignment to one entry of an array, \<^verbatim>\<open>a[i] = v\<close>, with the index read as in
  \<open>py_index\<close>; and assignment of a scalar to a slice, \<^verbatim>\<open>a[lo:hi] = v\<close>, where a negative
  bound counts from the end and both bounds are clipped to the array.
\<close>

definition py_setitem :: "'a list \<Rightarrow> int \<Rightarrow> 'a \<Rightarrow> py_error + 'a list" where
  "py_setitem xs i v =
     (if 0 \<le> i \<and> i < int (length xs) then Inr (xs[nat i := v])
      else if i < 0 \<and> - int (length xs) \<le> i then Inr (xs[nat (int (length xs) + i) := v])
      else Inl IndexError)"

definition slice_bound :: "nat \<Rightarrow> int \<Rightarrow> nat" where
  "slice_bound n i = (if i < 0 then nat (max 0 (int n + i)) else min n (nat i))"

definition py_setslice :: "'a list \<Rightarrow> int \<Rightarrow> int \<Rightarrow> 'a \<Rightarrow> 'a list" where
  "py_setslice xs lo hi v =
     map (\<lambda>j. if slice_bound (length xs) lo \<le> j \<and> j < slice_bound (length xs) hi
               then v else xs ! j) [0 ..< length xs]"

text \<open>
  The perturbation arrays of the constructor.  The perturbation windows of the subject
  are the pairs of \<^verbatim>\<open>self.pert_starts[pidx]\<close> and \<^verbatim>\<open>self.pert_ends[pidx]\<close>, which the
  constructor appends in one loop.  The first loop marks in \<^verbatim>\<open>in_pert_transition\<close> the
  timepoint at which each perturbation starts (the next timepoint when the start was not
  sampled), the second the timepoint at which each ends (the previous timepoint when the
  end was not sampled); a start or an end on the first or the last timepoint raises
  \<^verbatim>\<open>ValueError\<close>.
\<close>

fun mark_starts :: "real list \<Rightarrow> real list \<Rightarrow> bool list \<Rightarrow> py_error + bool list" where
  "mark_starts ts [] in_transition = Inr in_transition"
| "mark_starts ts (t # rest) in_transition =
     bind_err (py_index ts (- 1)) (\<lambda>last_t.
     bind_err (py_index ts 0) (\<lambda>first_t.
       if t = last_t \<or> t = first_t then Inl ValueError
       else
         bind_err (np_max ts) (\<lambda>max_t.
           if t > max_t then mark_starts ts rest in_transition
           else
             let tidx = (case t2tidx ts t of None \<Rightarrow> searchsorted ts t | Some j \<Rightarrow> int j) in
             bind_err (py_setitem in_transition tidx True) (mark_starts ts rest))))"

fun mark_ends :: "real list \<Rightarrow> real list \<Rightarrow> bool list \<Rightarrow> py_error + bool list" where
  "mark_ends ts [] in_transition = Inr in_transition"
| "mark_ends ts (t # rest) in_transition =
     bind_err (py_index ts (- 1)) (\<lambda>last_t.
     bind_err (py_index ts 0) (\<lambda>first_t.
       if t = last_t \<or> t = first_t then Inl ValueError
       else
         bind_err (np_min ts) (\<lambda>min_t.
         bind_err (np_max ts) (\<lambda>max_t.
           if t < min_t \<or> t > max_t then mark_ends ts rest in_transition
           else
             let tidx = (case t2tidx ts t of None \<Rightarrow> searchsorted ts t - 1 | Some j \<Rightarrow> int j) in
             bind_err (py_setitem in_transition tidx True) (mark_ends ts rest)))))"

text \<open>
  The last loop writes the index of each perturbation into \<^verbatim>\<open>fully_in_pert\<close> on the
  slice \<^verbatim>\<open>start_tidx:end_tidx\<close>: from the timepoint after the start up to the timepoint
  before the end when both were sampled, and from \<^verbatim>\<open>searchsorted\<close> (the \<^verbatim>\<open>except\<close>
  branch of the failed dictionary lookup) otherwise.
\<close>

definition fill_slice :: "real list \<Rightarrow> real \<times> real \<Rightarrow> int \<times> int" where
  "fill_slice ts w =
     (case (t2tidx ts (fst w), t2tidx ts (snd w)) of
        (Some s, Some e) \<Rightarrow> (int s + 1, int e)
      | _ \<Rightarrow> (searchsorted ts (fst w), searchsorted ts (snd w) - 1))"

fun fill_fully_in_pert :: "real list \<Rightarrow> (real \<times> real) list \<Rightarrow> nat \<Rightarrow> int list \<Rightarrow> int list" where
  "fill_fully_in_pert ts [] pidx fully_in = fully_in"
| "fill_fully_in_pert ts (w # rest) pidx fully_in =
     (let (start_tidx, end_tidx) = fill_slice ts w in
      fill_fully_in_pert ts rest (pidx + 1)
        (py_setslice fully_in start_tidx end_tidx (int pidx)))"

text \<open>
  The block \<^verbatim>\<open>if self.there_are_perturbations:\<close> of the constructor: the two arrays
  start as all \<^verbatim>\<open>False\<close> and all \<open>- 1\<close>, and an odd number of marked timepoints raises
  \<^verbatim>\<open>ValueError\<close>.
\<close>

definition init_perturbations ::
  "real list \<Rightarrow> (real \<times> real) list \<Rightarrow> py_error + (bool list \<times> int list)" where
  "init_perturbations ts windows =
     (let in_transition = replicate (length ts) False;
          fully_in = replicate (length ts) (- 1)
      in bind_err (mark_starts ts (map fst windows) in_transition) (\<lambda>in_transition.
         bind_err (mark_ends ts (map snd windows) in_transition) (\<lambda>in_transition.
           if length (filter (\<lambda>b. b) in_transition) mod 2 \<noteq> 0 then Inl ValueError
           else Inr (in_transition, fill_fully_in_pert ts windows 0 fully_in))))"












text \<open>
  The sampling schedules the statement below is about: the times increase strictly;
  every perturbation window starts and ends at a sampled time, does not start at the
  first one nor end at the last one, and has a sampled time strictly inside; and of any
  two windows one ends before the other starts.
\<close>

definition schedule_ok :: "real list \<Rightarrow> (real \<times> real) list \<Rightarrow> bool" where
  "schedule_ok ts windows =
     (sorted_wrt (<) ts
      \<and> list_all (\<lambda>w. fst w \<in> set ts \<and> snd w \<in> set ts \<and> fst w \<noteq> hd ts \<and> snd w \<noteq> last ts
                       \<and> list_ex (\<lambda>t. fst w < t \<and> t < snd w) ts) windows
      \<and> sorted_wrt (\<lambda>w v. snd w < fst v \<or> snd v < fst w) windows)"






section \<open>The process variance\<close>

text \<open>
  Indexing with a boolean mask, \<^verbatim>\<open>a[mask]\<close>: the entries at which the mask is true; a
  mask of another length raises \<^verbatim>\<open>IndexError\<close>.
\<close>

definition np_mask :: "'a list \<Rightarrow> bool list \<Rightarrow> py_error + 'a list" where
  "np_mask xs msk =
     (if length msk = length xs then Inr (map fst (filter snd (zip xs msk)))
      else Inl IndexError)"

text \<open>
  The fields of \<^verbatim>\<open>G.data\<close> that the process variance reads, and the fields of
  \<^verbatim>\<open>ProcessVarGlobal\<close> (a scaled-inverse-chi-squared variable with its prior).
\<close>

record pv_data =
  dt_vec :: "real list"
  sqrt_dt_vec :: "real list"
  zero_inflation_transition_policy :: "string option"
  rows_to_include_zero_inflation :: "bool list"

record process_var =
  prior_dof :: real
  prior_scale :: real
  pv_dof :: real
  pv_scale :: real
  pv_value :: real
  pv_diag :: "real list"
  pv_prec :: "real list"

text \<open>
  \<^verbatim>\<open>rebuild_diag\<close>: \<^verbatim>\<open>a = self.value / self.G.data.dt_vec\<close>, restricted to the rows
  of the mask under a zero-inflation policy; then \<^verbatim>\<open>self.diag = a\<close> and
  \<^verbatim>\<open>self.prec = 1/a\<close>.
\<close>

definition ProcessVarGlobal_rebuild_diag :: "pv_data \<Rightarrow> process_var \<Rightarrow> py_error + process_var" where
  "ProcessVarGlobal_rebuild_diag d st =
     (let a = map (\<lambda>dt. pv_value st / dt) (dt_vec d) in
      bind_err (if zero_inflation_transition_policy d \<noteq> None
                then np_mask a (rows_to_include_zero_inflation d) else Inr a) (\<lambda>a.
        Inr (st\<lparr>pv_diag := a, pv_prec := map (\<lambda>x. 1 / x) a\<rparr>)))"

text \<open>
  \<^verbatim>\<open>self.G.data.sqrt_dt_vec\<close> as \<^verbatim>\<open>update\<close> reads it: under a zero-inflation policy
  restricted to the rows of the mask, \<^verbatim>\<open>sqrt_dt_vec[rows_to_include_zero_inflation]\<close>.
\<close>

definition selected_sqrt_dt :: "pv_data \<Rightarrow> py_error + real list" where
  "selected_sqrt_dt d =
     (if zero_inflation_transition_policy d \<noteq> None
      then np_mask (sqrt_dt_vec d) (rows_to_include_zero_inflation d)
      else Inr (sqrt_dt_vec d))"

text \<open>
  \<^verbatim>\<open>ProcessVarGlobal.update\<close>.  The residual vector \<open>z\<close> is what
  \<^verbatim>\<open>np.asarray(self.G.data.construct_lhs(...)).ravel()\<close> returns, and \<open>draw\<close> is the
  value that \<^verbatim>\<open>self.sample()\<close> draws from the posterior with the degrees of freedom and
  the scale just set; both come from code outside the module.  The method multiplies
  \<open>z\<close> by \<^verbatim>\<open>sqrt_dt_vec\<close> (restricted to the rows of the mask under a zero-inflation
  policy), sums the squares, and sets
  \<^verbatim>\<open>self.dof.value = self.prior.dof.value + len(z)\<close> and
  \<^verbatim>\<open>self.scale.value = ((self.prior.scale.value * self.prior.dof.value) + residual)/self.dof.value\<close>,
  then samples and rebuilds the diagonal.  The status string it also sets is left out.
\<close>

definition ProcessVarGlobal_update ::
  "(real \<Rightarrow> real \<Rightarrow> real) \<Rightarrow> pv_data \<Rightarrow> real list \<Rightarrow> process_var \<Rightarrow> py_error + process_var" where
  "ProcessVarGlobal_update draw d z0 st =
     bind_err (selected_sqrt_dt d) (\<lambda>s.
     bind_err (np_multiply z0 s) (\<lambda>z.
       let residual = sum_list (map (\<lambda>x. x\<^sup>2) z);
           dof = prior_dof st + real (length z);
           scale = (prior_scale st * prior_dof st + residual) / dof;
           st1 = st\<lparr>pv_dof := dof, pv_scale := scale\<rparr>;
           st2 = st1\<lparr>pv_value := draw dof scale\<rparr>
       in ProcessVarGlobal_rebuild_diag d st2))"

section \<open>Truncation bounds of the self-interactions\<close>

text \<open>
  A truncation bound is a Python float that may be \<^verbatim>\<open>float('inf')\<close>.  Dividing a bound
  by a positive number keeps infinity.
\<close>

datatype bound = Finite real | PosInf

fun bound_div :: "bound \<Rightarrow> real \<Rightarrow> bound" where
  "bound_div (Finite x) c = Finite (x / c)"
| "bound_div PosInf c = PosInf"

fun bound_negative :: "bound \<Rightarrow> bool" where
  "bound_negative (Finite x) = (x < 0)"
| "bound_negative PosInf = False"

fun bound_le :: "bound \<Rightarrow> bound \<Rightarrow> bool" where
  "bound_le (Finite a) (Finite b) = (a \<le> b)"
| "bound_le (Finite a) PosInf = True"
| "bound_le PosInf (Finite b) = False"
| "bound_le PosInf PosInf = True"

text \<open>
  The argument \<^verbatim>\<open>truncation_settings\<close> is a string, a tuple (of numbers), or something
  else.  The growth variable carries its own bounds and the flag \<^verbatim>\<open>_initialized\<close>.
\<close>

datatype truncation_settings = TStr string | TTuple "bound list" | TOther

record growth_var =
  growth_initialized :: bool
  growth_low :: bound
  growth_high :: bound

record self_interactions_var =
  si_delay :: int
  si_low :: bound
  si_high :: bound

text \<open>
  \<^verbatim>\<open>SelfInteractions.initialize\<close>, from its start to the end of the block
  \<^verbatim>\<open># Set truncation settings\<close>; \<^verbatim>\<open>delay\<close> is an integer and \<^verbatim>\<open>rescale_value\<close> is
  \<^verbatim>\<open>None\<close> or a number.  For the presets \<^verbatim>\<open>'mouse'\<close> and \<^verbatim>\<open>'human'\<close>:
  \<^verbatim>\<open>high = 1e13\<close> for the mouse and \<^verbatim>\<open>1e14\<close> otherwise, \<^verbatim>\<open>low = 1e2\<close>, both multiplied
  by the rescale value when there is one, and then
  \<^verbatim>\<open>self.low = growth.high/low\<close> and \<^verbatim>\<open>self.high = growth.low/high\<close>.
\<close>

definition SelfInteractions_initialize_truncation ::
  "growth_var \<Rightarrow> truncation_settings \<Rightarrow> int \<Rightarrow> real option \<Rightarrow> self_interactions_var
     \<Rightarrow> py_error + self_interactions_var" where
  "SelfInteractions_initialize_truncation growth settings delay rescale_value self =
     (if delay < 0 then Inl ValueError
      else
        let self = self\<lparr>si_delay := delay\<rparr> in
        case settings of
          TStr name \<Rightarrow>
            if name \<in> set [''mouse'', ''human''] then
              if \<not> growth_initialized growth then Inl ValueError
              else
                let high = (if name = ''mouse'' then 10 ^ 13 else 10 ^ 14);
                    low = 10 ^ 2
                in (case rescale_value of
                      None \<Rightarrow>
                        Inr (self\<lparr>si_low := bound_div (growth_high growth) low,
                                  si_high := bound_div (growth_low growth) high\<rparr>)
                    | Some r \<Rightarrow>
                        if r \<le> 0 then Inl ValueError
                        else
                          let high = high * r; low = low * r in
                          Inr (self\<lparr>si_low := bound_div (growth_high growth) low,
                                    si_high := bound_div (growth_low growth) high\<rparr>))
            else if name \<in> set [''auto'', ''positive''] then
              Inr (self\<lparr>si_low := Finite 0, si_high := PosInf\<rparr>)
            else Inl ValueError
        | TTuple t \<Rightarrow>
            if length t \<noteq> 2 then Inl ValueError
            else
              let l = t ! 0; h = t ! 1 in
              if bound_negative l \<or> bound_negative h then Inl ValueError
              else if bound_le h l then Inl ValueError
              else Inr (self\<lparr>si_high := h, si_low := l\<rparr>)
        | TOther \<Rightarrow> Inl TypeError)"

text \<open>A growth variable initialised with the bounds \<open>(0.1, 2)\<close>.\<close>

definition example_growth :: growth_var where
  "example_growth = \<lparr>growth_initialized = True, growth_low = Finite (1 / 10), growth_high = Finite 2\<rparr>"

definition example_self_interactions :: self_interactions_var where
  "example_self_interactions = \<lparr>si_delay = 0, si_low = Finite 0, si_high = PosInf\<rparr>"

section \<open>The regression coefficients\<close>

text \<open>
  Python values as far as the type checks of the module look at them; \<^verbatim>\<open>pl.isbool\<close>
  accepts the booleans only.
\<close>

datatype py_value = PyBool bool | PyInt int | PyFloat real | PyStr string | PyNone

fun isbool :: "py_value \<Rightarrow> bool" where
  "isbool (PyBool b) = True"
| "isbool v = False"

fun truthy :: "py_value \<Rightarrow> bool" where
  "truthy (PyBool b) = b"
| "truthy (PyInt i) = (i \<noteq> 0)"
| "truthy (PyFloat x) = (x \<noteq> 0)"
| "truthy (PyStr s) = (s \<noteq> [])"
| "truthy PyNone = False"

text \<open>
  The fields of \<^verbatim>\<open>RegressCoeff\<close> that decide what is updated together, and the
  counters and delays of the interaction values and of the perturbation magnitudes that
  \<^verbatim>\<open>_update_perts_and_inter\<close> compares.
\<close>

record regress_coeff =
  rc_there_are_perturbations :: bool
  update_jointly_growth_si :: py_value
  update_jointly_pert_inter :: py_value
  rc_sample_iter :: int
  interactions_sample_iter :: int
  interactions_delay :: int
  pert_mag_sample_iter :: int
  pert_mag_delay :: int

text \<open>
  \<^verbatim>\<open>RegressCoeff.initialize(update_jointly_pert_inter, update_jointly_growth_si)\<close>;
  \<open>perturbations\<close> says whether \<^verbatim>\<open>self.G.perturbations\<close> is not \<^verbatim>\<open>None\<close>.  The two
  arguments are type-checked, stored, and a request to update growth and
  self-interactions jointly raises \<^verbatim>\<open>NotImplementedError\<close>.
\<close>

definition RegressCoeff_initialize ::
  "bool \<Rightarrow> py_value \<Rightarrow> py_value \<Rightarrow> regress_coeff \<Rightarrow> py_error + regress_coeff" where
  "RegressCoeff_initialize perturbations jointly_pert_inter jointly_growth_si self =
     (let self = self\<lparr>rc_there_are_perturbations := perturbations\<rparr> in
      if \<not> isbool jointly_growth_si then Inl TypeError
      else if \<not> isbool jointly_pert_inter then Inl TypeError
      else
        let self = self\<lparr>update_jointly_growth_si := jointly_growth_si,
                         update_jointly_pert_inter := jointly_pert_inter,
                         rc_sample_iter := 0\<rparr>
        in if truthy (update_jointly_growth_si self) then Inl NotImplementedError
           else Inr self)"

text \<open>
  \<^verbatim>\<open>ClusterAssignments.update_mp\<close> starts with the check of the zero-inflation policy
  of the data; \<open>rest\<close> is the remainder of the method, run on the state \<open>st\<close> when the
  check passes.
\<close>

definition ClusterAssignments_update_mp ::
  "('s \<Rightarrow> py_error + 's) \<Rightarrow> string option \<Rightarrow> 's \<Rightarrow> py_error + 's" where
  "ClusterAssignments_update_mp rest zero_inflation_policy st =
     (if zero_inflation_policy \<noteq> None then Inl NotImplementedError else rest st)"

text \<open>
  \<^verbatim>\<open>RegressCoeff._update_perts_and_inter\<close>.  What the method does to the model is a
  sequence of events: a call of the \<^verbatim>\<open>update\<close> method of the interaction values or of
  the perturbation magnitudes, or the assignment of a slice of a joint sample to one of
  them.  The inputs that come from outside the method are collected in a record: the
  uniform number drawn, the number of columns of the design matrix that
  \<^verbatim>\<open>construct_rhs\<close> builds for the keys on the right-hand side, the exception raised by
  \<^verbatim>\<open>pinv\<close> if any, the joint sample (\<open>None\<close> when \<^verbatim>\<open>self.sample()\<close> raises), and the
  number of positive interaction indicators.
\<close>

datatype rhs_key = CLUSTER_INTERACTION_VALUE | PERT_VALUE

datatype update_event =
    UpdateInteractions
  | UpdatePerturbations
  | AssignInteractions "real list"
  | AssignPerturbations "real list"

record joint_inputs =
  uniform_draw :: real
  n_columns :: "rhs_key list \<Rightarrow> nat"
  pinv_error :: "py_error option"
  joint_sample :: "real list option"
  num_pos_indicators :: nat

definition update_perts_and_inter ::
  "joint_inputs \<Rightarrow> regress_coeff \<Rightarrow> py_error + update_event list" where
  "update_perts_and_inter inp self =
     (if \<not> truthy (update_jointly_pert_inter self) then
        (if uniform_draw inp < 0.5
         then Inr (UpdateInteractions
                   # (if rc_there_are_perturbations self then [UpdatePerturbations] else []))
         else Inr ((if rc_there_are_perturbations self then [UpdatePerturbations] else [])
                   @ [UpdateInteractions]))
      else
        let rhs = (if interactions_sample_iter self \<ge> interactions_delay self
                   then [CLUSTER_INTERACTION_VALUE] else [])
                  @ (if rc_there_are_perturbations self
                        \<and> pert_mag_sample_iter self \<ge> pert_mag_delay self
                     then [PERT_VALUE] else [])
        in if length rhs = 0 then Inr []
           else if n_columns inp rhs = 0 then Inr []
           else (case pinv_error inp of
                   Some e \<Rightarrow> Inl e
                 | None \<Rightarrow>
                    (case joint_sample inp of
                       None \<Rightarrow>
                         if rc_there_are_perturbations self
                         then Inr [UpdatePerturbations, UpdateInteractions]
                         else Inl AttributeError
                     | Some v \<Rightarrow>
                         let l = (if CLUSTER_INTERACTION_VALUE \<in> set rhs
                                  then num_pos_indicators inp else 0)
                         in Inr ((if CLUSTER_INTERACTION_VALUE \<in> set rhs
                                  then [AssignInteractions (take l v)] else [])
                                 @ (if rc_there_are_perturbations self \<and> PERT_VALUE \<in> set rhs
                                    then [AssignPerturbations (drop l v)] else [])))))"

text \<open>
  A model with perturbations, configured for the joint update, with both the interactions
  and the perturbations past their delays.
\<close>

definition example_regress_coeff :: regress_coeff where
  "example_regress_coeff =
     \<lparr>rc_there_are_perturbations = True,
      update_jointly_growth_si = PyBool False, update_jointly_pert_inter = PyBool True,
      rc_sample_iter = 5, interactions_sample_iter = 5, interactions_delay = 2,
      pert_mag_sample_iter = 5, pert_mag_delay = 2\<rparr>"

section \<open>Inversion and log-determinant with a crash dump\<close>

text \<open>
  A matrix argument is a dense array or a sparse matrix; a sparse matrix is given by its
  shape and its stored entries, and \<^verbatim>\<open>toarray\<close> writes it into a dense array of zeros
  of that shape (entries stored at the same position add up).
\<close>

datatype matrix_arg =
    Dense "real list list"
  | Sparse nat nat "((nat \<times> nat) \<times> real) list"

definition toarray :: "nat \<Rightarrow> nat \<Rightarrow> ((nat \<times> nat) \<times> real) list \<Rightarrow> real list list" where
  "toarray r c entries =
     map (\<lambda>i. map (\<lambda>j. sum_list (map snd (filter (\<lambda>e. fst e = (i, j)) entries))) [0 ..< c])
       [0 ..< r]"

fun densify :: "matrix_arg \<Rightarrow> real list list" where
  "densify (Dense M) = M"
| "densify (Sparse r c entries) = toarray r c entries"

text \<open>Python's \<^verbatim>\<open>str\<close> of an integer, as \<^verbatim>\<open>format\<close> inserts it.\<close>

function string_of_nat :: "nat \<Rightarrow> string" where
  "string_of_nat n =
     (if n < 10 then [''0123456789'' ! n]
      else string_of_nat (n div 10) @ [''0123456789'' ! (n mod 10)])"
  by pat_completeness auto
termination
  by (relation "measure id") auto

definition string_of_int :: "int \<Rightarrow> string" where
  "string_of_int i = (if i < 0 then CHR ''-'' # string_of_nat (nat (- i)) else string_of_nat (nat i))"

text \<open>
  The variable a wrapper is called from: its name, the name of its graph, and its
  \<^verbatim>\<open>sample_iter\<close>, which the wrappers replace by \<^verbatim>\<open>None\<close> when reading it fails.
\<close>

record calling_variable =
  var_sample_iter :: "int option"
  var_name :: string
  var_graph_name :: string

definition format_sample_iter :: "int option \<Rightarrow> string" where
  "format_sample_iter it = (case it of None \<Rightarrow> ''None'' | Some i \<Rightarrow> string_of_int i)"

text \<open>
  What the wrappers change outside the program: the directories created, the arrays
  saved under their file names, and the critical log (its messages shortened).  Creating
  the directory and saving the array are taken to succeed.
\<close>

record world =
  directories :: "string set"
  saved_arrays :: "string \<rightharpoonup> real list list"
  critical_log :: "string list"

definition dump_crash :: "string \<Rightarrow> real list list \<Rightarrow> world \<Rightarrow> world" where
  "dump_crash filename M w =
     w\<lparr>critical_log := critical_log w @ [''Saved array at '' @ filename],
       directories := insert ''crashes/'' (directories w),
       saved_arrays := (saved_arrays w)(filename \<mapsto> M)\<rparr>"

text \<open>
  \<^verbatim>\<open>log_det(M, var)\<close>: densify, call \<^verbatim>\<open>pl.math.log_det\<close> (the parameter \<open>routine\<close>);
  when it raises, save the array under
  \<^verbatim>\<open>'crashes/logdet_error_iter{}_var{}pinv_{}.npy'.format(sample_iter, var.name, var.G.name)\<close>
  and re-raise.
\<close>

definition logdet_filename :: "calling_variable \<Rightarrow> string" where
  "logdet_filename var =
     ''crashes/logdet_error_iter'' @ format_sample_iter (var_sample_iter var)
     @ ''_var'' @ var_name var @ ''pinv_'' @ var_graph_name var @ ''.npy''"

definition log_det ::
  "(real list list \<Rightarrow> py_error + real) \<Rightarrow> matrix_arg \<Rightarrow> calling_variable \<Rightarrow> world
     \<Rightarrow> world \<times> (py_error + real)" where
  "log_det routine M var w =
     (let M = densify M in
      case routine M of
        Inr v \<Rightarrow> (w, Inr v)
      | Inl e \<Rightarrow> (dump_crash (logdet_filename var) M w, Inl e))"

text \<open>
  \<^verbatim>\<open>pinv(M, var)\<close>: densify, try \<^verbatim>\<open>np.linalg.pinv\<close>, then \<^verbatim>\<open>scipy.linalg.pinv\<close>, then
  \<^verbatim>\<open>scipy.linalg.inv\<close> (the three parameters); when the last one raises too, save the
  array under
  \<^verbatim>\<open>'crashes/pinv_error_iter{}_var{}pinv_{}.npy'.format(sample_iter, var.name, var.G.name)\<close>
  and re-raise the exception that reached the handler, which is the one of the last
  routine.
\<close>

definition pinv_filename :: "calling_variable \<Rightarrow> string" where
  "pinv_filename var =
     ''crashes/pinv_error_iter'' @ format_sample_iter (var_sample_iter var)
     @ ''_var'' @ var_name var @ ''pinv_'' @ var_graph_name var @ ''.npy''"

definition pinv ::
  "(real list list \<Rightarrow> py_error + real list list) \<Rightarrow> (real list list \<Rightarrow> py_error + real list list)
     \<Rightarrow> (real list list \<Rightarrow> py_error + real list list)
     \<Rightarrow> matrix_arg \<Rightarrow> calling_variable \<Rightarrow> world \<Rightarrow> world \<times> (py_error + real list list)" where
  "pinv np_linalg_pinv scipy_linalg_pinv scipy_linalg_inv M var w =
     (let M = densify M in
      case np_linalg_pinv M of
        Inr v \<Rightarrow> (w, Inr v)
      | Inl e1 \<Rightarrow>
          (case scipy_linalg_pinv M of
             Inr v \<Rightarrow> (w, Inr v)
           | Inl e2 \<Rightarrow>
               (case scipy_linalg_inv M of
                  Inr v \<Rightarrow> (w, Inr v)
                | Inl e3 \<Rightarrow> (dump_crash (pinv_filename var) M w, Inl e3))))"

text \<open>
  A variable of the graph \<open>''graph''\<close> in its twelfth iteration, an empty world, and
  routines that fail on every matrix.
\<close>

definition example_variable :: calling_variable where
  "example_variable =
     \<lparr>var_sample_iter = Some 12, var_name = ''Process Variance'', var_graph_name = ''graph''\<rparr>"

definition empty_world :: world where
  "empty_world = \<lparr>directories = {}, saved_arrays = Map.empty, critical_log = []\<rparr>"

definition singular_routine :: "string \<Rightarrow> real list list \<Rightarrow> py_error + 'a" where
  "singular_routine msg M = Inl (LinAlgError msg)"

section \<open>Collapsed marginal log-likelihoods\<close>















section \<open>The model-comparison tool\<close>

text \<open>
  A two-dimensional array is the list of its rows; a trajectory has one row per
  timepoint and one column per taxon.  \<open>rectangular T n\<close> says that an array has the
  shape \<open>(T, n)\<close>.
\<close>

type_synonym array2 = "real list list"

definition rectangular :: "nat \<Rightarrow> nat \<Rightarrow> array2 \<Rightarrow> bool" where
  "rectangular T n A = (length A = T \<and> list_all (\<lambda>row. length row = n) A)"

text \<open>
  \<^verbatim>\<open>tr /= tr.sum(axis=1, keepdims=True)\<close>: every row is divided by its sum, in place.
\<close>

definition normalize_rows :: "array2 \<Rightarrow> array2" where
  "normalize_rows tr = map (\<lambda>row. map (\<lambda>x. x / sum_list row) row) tr"

text \<open>
  The difference of two arrays of the same shape.  Arrays of different shapes raise
  \<^verbatim>\<open>ValueError\<close> here; numpy would first try to broadcast a dimension of length one,
  which is outside this model.
\<close>

definition np_subtract :: "array2 \<Rightarrow> array2 \<Rightarrow> py_error + array2" where
  "np_subtract A B =
     (if map length A = map length B then Inr (map2 (map2 (-)) A B) else Inl ValueError)"

definition np_square :: "array2 \<Rightarrow> array2" where
  "np_square A = map (map (\<lambda>x. x\<^sup>2)) A"

definition np_mean :: "array2 \<Rightarrow> real" where
  "np_mean A = sum_list (concat A) / real (length (concat A))"

text \<open>
  The expression both functions append:
  \<^verbatim>\<open>np.sqrt(np.mean(np.square(tr[1:] - pred[1:])))\<close>.
\<close>

definition rmse :: "array2 \<Rightarrow> array2 \<Rightarrow> py_error + real" where
  "rmse tr pred =
     bind_err (np_subtract (drop 1 tr) (drop 1 pred)) (\<lambda>D. Inr (sqrt (np_mean (np_square D))))"

text \<open>
  The cached predictions are pickled files; a file holds a sequence whose first entry is
  the predicted trajectory.  The file of replicate \<open>i\<close> is
  \<^verbatim>\<open>"tmp/{}_prediction_parameters-{}-{}".format(dataset, i, model)\<close> for the dataset
  \<^verbatim>\<open>"stein"\<close> and \<^verbatim>\<open>"tmp/{}_predictions-{}-{}".format(dataset, i, model)\<close> otherwise.
\<close>

type_synonym pickles = "string \<rightharpoonup> array2 list"

definition prediction_file :: "string \<Rightarrow> nat \<Rightarrow> string \<Rightarrow> string" where
  "prediction_file dataset i model =
     (if dataset = ''stein''
      then ''tmp/'' @ dataset @ ''_prediction_parameters-'' @ string_of_nat i @ ''-'' @ model
      else ''tmp/'' @ dataset @ ''_predictions-'' @ string_of_nat i @ ''-'' @ model)"

definition pkl_load :: "pickles \<Rightarrow> string \<Rightarrow> py_error + array2 list" where
  "pkl_load files name = (case files name of None \<Rightarrow> Inl FileNotFoundError | Some obj \<Rightarrow> Inr obj)"

text \<open>
  \<^verbatim>\<open>compute_rmses(dataset, model, truth)\<close>: the loop over \<^verbatim>\<open>enumerate(truth)\<close>, from the
  index \<open>i\<close> on.  Each trajectory is normalised in place, so the function leaves the list
  of the normalised trajectories behind; it is returned with the errors.
\<close>

fun compute_rmses_from ::
  "pickles \<Rightarrow> string \<Rightarrow> string \<Rightarrow> nat \<Rightarrow> array2 list \<Rightarrow> py_error + (real list \<times> array2 list)" where
  "compute_rmses_from files dataset model i [] = Inr ([], [])"
| "compute_rmses_from files dataset model i (tr # rest) =
     (let tr = normalize_rows tr in
      bind_err (pkl_load files (prediction_file dataset i model)) (\<lambda>obj.
      bind_err (py_index obj 0) (\<lambda>pred.
      bind_err (rmse tr pred) (\<lambda>r.
      bind_err (compute_rmses_from files dataset model (i + 1) rest) (\<lambda>(rmses, trs).
        Inr (r # rmses, tr # trs))))))"

definition compute_rmses ::
  "pickles \<Rightarrow> string \<Rightarrow> string \<Rightarrow> array2 list \<Rightarrow> py_error + (real list \<times> array2 list)" where
  "compute_rmses files dataset model truth = compute_rmses_from files dataset model 0 truth"

text \<open>
  \<^verbatim>\<open>compute_rmse_static(truth)\<close>: the prediction is
  \<^verbatim>\<open>np.array([tr[0] for t in range(tr.shape[0])])\<close>, the first row once per timepoint.
\<close>

definition static_prediction :: "array2 \<Rightarrow> array2" where
  "static_prediction tr = (case tr of [] \<Rightarrow> [] | first # rest \<Rightarrow> replicate (length tr) first)"

fun compute_rmse_static :: "array2 list \<Rightarrow> py_error + real list" where
  "compute_rmse_static [] = Inr []"
| "compute_rmse_static (tr # rest) =
     bind_err (rmse tr (static_prediction tr)) (\<lambda>r.
     bind_err (compute_rmse_static rest) (\<lambda>rmses. Inr (r # rmses)))"

text \<open>
  The error of the specification: the square root of the mean, over the timepoints
  after the first and over all taxa, of the squared difference of two trajectories.
\<close>

definition rmse_spec :: "nat \<Rightarrow> nat \<Rightarrow> (nat \<Rightarrow> nat \<Rightarrow> real) \<Rightarrow> (nat \<Rightarrow> nat \<Rightarrow> real) \<Rightarrow> real" where
  "rmse_spec T n truth pred =
     sqrt ((\<Sum>t = 1 ..< T. \<Sum>j < n. (truth t j - pred t j)\<^sup>2) / real ((T - 1) * n))"

text \<open>
  What the statements below ask of a replicate: at least two timepoints and one taxon,
  the shape \<open>(T, n)\<close>, and no timepoint without abundance.
\<close>

definition trajectory_ok :: "nat \<Rightarrow> nat \<Rightarrow> array2 \<Rightarrow> bool" where
  "trajectory_ok T n tr =
     (2 \<le> T \<and> 1 \<le> n \<and> rectangular T n tr \<and> list_all (\<lambda>row. sum_list row \<noteq> 0) tr)"

text \<open>
  One replicate of two timepoints and two taxa, a cached prediction that equals its
  normalised trajectory, and the file of that prediction for the model \<open>''clv''\<close> on the
  dataset \<open>''bucci_diet''\<close>.
\<close>

definition example_truth :: array2 where
  "example_truth = [[1, 1], [1, 3]]"

definition example_prediction :: array2 where
  "example_prediction = [[1 / 2, 1 / 2], [1 / 4, 3 / 4]]"

definition example_pickles :: pickles where
  "example_pickles =
     (\<lambda>name. if name = ''tmp/bucci_diet_predictions-0-clv'' then Some [example_prediction]
             else None)"

section \<open>Properties\<close>

text \<open>
  C4.  For every \<open>k \<ge> 0\<close>, \<open>m > 0\<close> and \<open>dispersion > 0\<close> both log-likelihoods return a
  value, and the non-condensed value minus the condensed value is \<open>- lgamma (k + 1)\<close>,
  a term in which neither \<open>m\<close> nor \<open>dispersion\<close> occurs.
\<close>

theorem negbin_condensed_difference:
  assumes "0 \<le> k" and "0 < m" and "0 < dispersion"
  shows "\<exists>a b. negbin_loglikelihood lg k m dispersion = Inr a
           \<and> negbin_loglikelihood_MH_condensed lg k m dispersion = Inr b
           \<and> a - b = - lg (k + 1)"
proof -
  have r: "0 < 1 / dispersion" using assms(3) by simp
  have kr: "0 < k + 1 / dispersion" using assms(1) r by linarith
  have rm: "0 < 1 / dispersion + m" using assms(2) r by linarith
  have k1: "0 < k + 1" using assms(1) by linarith
  show ?thesis
    using assms r kr rm k1
    by (simp add: negbin_loglikelihood_def negbin_loglikelihood_MH_condensed_def
        bind_err_def py_truediv_def math_lgamma_def math_log_def Let_def)
qed

theorem negbin_condensed_difference_witness:
  "(0::real) \<le> 5 \<and> (0::real) < 10 \<and> (0::real) < 1/2
   \<and> (\<exists>a b. negbin_loglikelihood lgamma_at_integers 5 10 (1/2) = Inr a
           \<and> negbin_loglikelihood_MH_condensed lgamma_at_integers 5 10 (1/2) = Inr b
           \<and> a - b = - lgamma_at_integers (5 + 1))"
  using negbin_condensed_difference [of 5 10 "1/2" lgamma_at_integers] by simp

subsection \<open>The transition density of the filter\<close>














lemma py_index_last: "xs \<noteq> [] \<Longrightarrow> py_index xs (- 1) = Inr (last xs)"
proof -
  assume ne: "xs \<noteq> []"
  then have pos: "0 < length xs" by simp
  then have "nat (int (length xs) + - 1) = length xs - 1" by simp
  then show ?thesis using ne pos by (simp add: py_index_def last_conv_nth Suc_le_eq)
qed

lemma py_index_first: "xs \<noteq> [] \<Longrightarrow> py_index xs 0 = Inr (hd xs)"
  by (simp add: py_index_def hd_conv_nth)

lemma py_setitem_nat: "j < length xs \<Longrightarrow> py_setitem xs (int j) v = Inr (xs[j := v])"
  by (simp add: py_setitem_def)



subsubsection \<open>Strictly increasing times\<close>

lemma strict_nth_less:
  assumes "sorted_wrt (<) (ts :: real list)" and "a < length ts" and "b < length ts"
  shows "(ts ! a < ts ! b) = (a < b)"
proof
  assume "a < b"
  then show "ts ! a < ts ! b" using assms by (simp add: sorted_wrt_nth_less)
next
  assume lt: "ts ! a < ts ! b"
  show "a < b"
  proof (rule ccontr)
    assume "\<not> a < b"
    then have "b = a \<or> b < a" by auto
    then show False
    proof
      assume "b = a" then show False using lt by simp
    next
      assume "b < a"
      then have "ts ! b < ts ! a" using assms by (simp add: sorted_wrt_nth_less)
      then show False using lt by simp
    qed
  qed
qed

lemma strict_nth_eq:
  assumes "sorted_wrt (<) (ts :: real list)" and "a < length ts" and "b < length ts"
  shows "(ts ! a = ts ! b) = (a = b)"
proof
  assume eq: "ts ! a = ts ! b"
  have "\<not> a < b" using strict_nth_less [OF assms] eq by simp
  moreover have "\<not> b < a" using strict_nth_less [OF assms(1) assms(3) assms(2)] eq by simp
  ultimately show "a = b" by simp
next
  assume "a = b"
  then show "ts ! a = ts ! b" by simp
qed

lemma strict_distinct: "sorted_wrt (<) ts \<Longrightarrow> distinct (ts :: real list)"
  by (simp add: strict_sorted_iff)

lemma fold_t2tidx_notin:
  assumes F: "\<And>j x d. F (j, x) d = d(x \<mapsto> j)"
  shows "t \<notin> set xs \<Longrightarrow> fold F (enumerate n xs) d t = d t"
  by (induction xs arbitrary: n d) (simp_all add: F)

lemma fold_t2tidx_nth:
  assumes F: "\<And>j x d. F (j, x) d = d(x \<mapsto> j)"
  shows "distinct xs \<Longrightarrow> k < length xs \<Longrightarrow>
     fold F (enumerate n xs) d (xs ! k) = Some (n + k)"
proof (induction xs arbitrary: n d k)
  case Nil
  then show ?case by simp
next
  case (Cons x xs)
  show ?case
  proof (cases k)
    case 0
    then show ?thesis
      using Cons.prems fold_t2tidx_notin [of F x xs "Suc n" "d(x \<mapsto> n)", OF F]
      by (simp add: F)
  next
    case (Suc j)
    then show ?thesis using Cons.prems Cons.IH [of j "Suc n"] by (simp add: F)
  qed
qed

lemma t2tidx_nth:
  "sorted_wrt (<) ts \<Longrightarrow> k < length ts \<Longrightarrow> t2tidx ts (ts ! k) = Some k"
  unfolding t2tidx_def
  by (subst fold_t2tidx_nth) (simp_all add: strict_distinct)

lemma sampled_index:
  assumes "t \<in> set ts"
  obtains j where "j < length ts" and "ts ! j = t"
  using assms by (auto simp add: in_set_conv_nth)

lemma np_max_sampled: "t \<in> set ts \<Longrightarrow> np_max ts = Inr (Max (set ts)) \<and> t \<le> Max (set ts)"
  by (auto simp add: np_max_def)

lemma np_min_sampled: "t \<in> set ts \<Longrightarrow> np_min ts = Inr (Min (set ts)) \<and> Min (set ts) \<le> t"
  by (auto simp add: np_min_def)

subsubsection \<open>The arrays of the constructor\<close>

lemma mark_starts_sampled:
  assumes srt: "sorted_wrt (<) (ts :: real list)"
  shows "list_all (\<lambda>t. t \<in> set ts \<and> t \<noteq> hd ts \<and> t \<noteq> last ts) starts \<Longrightarrow>
         length marks = length ts \<Longrightarrow>
         \<exists>marks'. mark_starts ts starts marks = Inr marks' \<and> length marks' = length ts
            \<and> (\<forall>k<length ts. marks' ! k = (marks ! k \<or> ts ! k \<in> set starts))"
proof (induction starts arbitrary: marks)
  case Nil
  then show ?case by simp
next
  case (Cons t rest)
  from Cons.prems(1) have t: "t \<in> set ts" "t \<noteq> hd ts" "t \<noteq> last ts"
    and rest: "list_all (\<lambda>t. t \<in> set ts \<and> t \<noteq> hd ts \<and> t \<noteq> last ts) rest"
    by simp_all
  from t(1) obtain j where j: "j < length ts" "ts ! j = t" by (rule sampled_index)
  have ne: "ts \<noteq> []" using t(1) by auto
  have idx: "t2tidx ts t = Some j" using t2tidx_nth [OF srt j(1)] j(2) by simp
  have mx: "np_max ts = Inr (Max (set ts))" "\<not> Max (set ts) < t"
    using np_max_sampled [OF t(1)] by simp_all
  have set_j: "py_setitem marks (int j) True = Inr (marks[j := True])"
    using j(1) Cons.prems(2) by (simp add: py_setitem_nat)
  have step: "mark_starts ts (t # rest) marks = mark_starts ts rest (marks[j := True])"
    using t(2,3) mx
    by (simp add: py_index_last [OF ne] py_index_first [OF ne] idx set_j bind_err_def)
  have "length (marks[j := True]) = length ts" using Cons.prems(2) by simp
  from Cons.IH [OF rest this] obtain marks' where
    m: "mark_starts ts rest (marks[j := True]) = Inr marks'" "length marks' = length ts"
      "\<forall>k<length ts. marks' ! k = (marks[j := True] ! k \<or> ts ! k \<in> set rest)"
    by blast
  have "\<forall>k<length ts. marks' ! k = (marks ! k \<or> ts ! k \<in> set (t # rest))"
  proof (intro allI impI)
    fix k assume k: "k < length ts"
    have "(ts ! k = t) = (k = j)" using strict_nth_eq [OF srt k j(1)] j(2) by simp
    moreover have "marks[j := True] ! k = (k = j \<or> marks ! k)"
      using k j(1) Cons.prems(2) by (cases "k = j") simp_all
    ultimately show "marks' ! k = (marks ! k \<or> ts ! k \<in> set (t # rest))"
      using m(3) k by auto
  qed
  with m(1,2) step show ?case by simp
qed






lemma strict_nth_le:
  assumes "sorted_wrt (<) (ts :: real list)" and "a < length ts" and "b < length ts"
  shows "(ts ! a \<le> ts ! b) = (a \<le> b)"
  using strict_nth_less [OF assms(1) assms(3) assms(2)] by (auto simp add: not_less [symmetric])



subsubsection \<open>Windows of a schedule\<close>

lemma schedule_window:
  assumes "schedule_ok ts windows" and "p < length windows"
  shows "fst (windows ! p) \<in> set ts" and "snd (windows ! p) \<in> set ts"
    and "fst (windows ! p) \<noteq> hd ts" and "snd (windows ! p) \<noteq> last ts"
    and "\<exists>b\<in>set ts. fst (windows ! p) < b \<and> b < snd (windows ! p)"
  using assms by (simp_all add: schedule_ok_def list_all_length list_ex_iff)

lemma schedule_window_less:
  assumes "schedule_ok ts windows" and "p < length windows"
  shows "fst (windows ! p) < snd (windows ! p)"
  using schedule_window(5) [OF assms] by auto

lemma schedule_disjoint:
  assumes ok: "schedule_ok ts windows" and p: "p < length windows" and q: "q < length windows"
    and pq: "p \<noteq> q"
  shows "snd (windows ! p) < fst (windows ! q) \<or> snd (windows ! q) < fst (windows ! p)"
proof -
  have srt: "sorted_wrt (\<lambda>w v. snd w < fst v \<or> snd v < fst w) windows"
    using ok by (simp add: schedule_ok_def)
  from pq have "p < q \<or> q < p" by auto
  then show ?thesis
  proof
    assume "p < q"
    then show ?thesis using sorted_wrt_nth_less [OF srt _ q] by blast
  next
    assume "q < p"
    then show ?thesis using sorted_wrt_nth_less [OF srt _ p] by blast
  qed
qed


lemma schedule_lists:
  assumes ok: "schedule_ok ts windows"
  shows "list_all (\<lambda>t. t \<in> set ts \<and> t \<noteq> hd ts \<and> t \<noteq> last ts) (map fst windows)"
    and "list_all (\<lambda>t. t \<in> set ts \<and> t \<noteq> hd ts \<and> t \<noteq> last ts) (map snd windows)"
    and "list_all (\<lambda>w. fst w \<in> set ts \<and> snd w \<in> set ts) windows"
proof -
  have srt: "sorted_wrt (<) ts" using ok by (simp add: schedule_ok_def)
  have *: "fst (windows ! p) \<noteq> last ts \<and> snd (windows ! p) \<noteq> hd ts" if p: "p < length windows" for p
  proof -
    from schedule_window(5) [OF ok p] obtain b where
      b: "b \<in> set ts" "fst (windows ! p) < b" "b < snd (windows ! p)" by blast
    from b(1) obtain j where j: "j < length ts" "ts ! j = b" by (rule sampled_index)
    have ne: "ts \<noteq> []" using b(1) by auto
    have z: "0 < length ts" using ne by simp
    then have l: "length ts - 1 < length ts" by simp
    have "ts ! j \<le> ts ! (length ts - 1)" using strict_nth_le [OF srt j(1) l] j(1) by simp
    then have "b \<le> last ts" using j(2) ne by (simp add: last_conv_nth)
    moreover have "ts ! 0 \<le> ts ! j" using strict_nth_le [OF srt z j(1)] by simp
    then have "hd ts \<le> b" using j(2) ne by (simp add: hd_conv_nth)
    ultimately show ?thesis using b(2,3) by auto
  qed
  show "list_all (\<lambda>t. t \<in> set ts \<and> t \<noteq> hd ts \<and> t \<noteq> last ts) (map fst windows)"
    using schedule_window(1,3) [OF ok] * by (simp add: list_all_length)
  show "list_all (\<lambda>t. t \<in> set ts \<and> t \<noteq> hd ts \<and> t \<noteq> last ts) (map snd windows)"
    using schedule_window(2,4) [OF ok] * by (simp add: list_all_length)
  show "list_all (\<lambda>w. fst w \<in> set ts \<and> snd w \<in> set ts) windows"
    using schedule_window(1,2) [OF ok] by (simp add: list_all_length)
qed

lemma in_set_map_nth: "(x \<in> set (map f ws)) = (\<exists>p<length ws. x = f (ws ! p))"
proof -
  have "(x \<in> set (map f ws)) = (\<exists>p<length (map f ws). map f ws ! p = x)"
    by (rule in_set_conv_nth)
  also have "\<dots> = (\<exists>p<length ws. x = f (ws ! p))" by auto
  finally show ?thesis .
qed




text \<open>On such a schedule the constructor returns.\<close>

lemma count_set_true:
  "j < length xs \<Longrightarrow> \<not> xs ! j \<Longrightarrow>
     length (filter (\<lambda>b. b) (xs[j := True])) = Suc (length (filter (\<lambda>b. b) xs))"
proof (induction xs arbitrary: j)
  case Nil
  then show ?case by simp
next
  case (Cons x xs)
  then show ?case by (cases j) simp_all
qed

lemma mark_starts_count:
  assumes srt: "sorted_wrt (<) (ts :: real list)"
  shows "list_all (\<lambda>t. t \<in> set ts \<and> t \<noteq> hd ts \<and> t \<noteq> last ts) starts \<Longrightarrow>
         length marks = length ts \<Longrightarrow> distinct starts \<Longrightarrow>
         (\<forall>k<length ts. marks ! k \<longrightarrow> ts ! k \<notin> set starts) \<Longrightarrow>
         \<exists>marks'. mark_starts ts starts marks = Inr marks'
            \<and> length (filter (\<lambda>b. b) marks') = length (filter (\<lambda>b. b) marks) + length starts"
proof (induction starts arbitrary: marks)
  case Nil
  then show ?case by simp
next
  case (Cons t rest)
  from Cons.prems(1) have t: "t \<in> set ts" "t \<noteq> hd ts" "t \<noteq> last ts"
    and rest: "list_all (\<lambda>t. t \<in> set ts \<and> t \<noteq> hd ts \<and> t \<noteq> last ts) rest"
    by simp_all
  from t(1) obtain j where j: "j < length ts" "ts ! j = t" by (rule sampled_index)
  have ne: "ts \<noteq> []" using t(1) by auto
  have idx: "t2tidx ts t = Some j" using t2tidx_nth [OF srt j(1)] j(2) by simp
  have mx: "np_max ts = Inr (Max (set ts))" "\<not> Max (set ts) < t"
    using np_max_sampled [OF t(1)] by simp_all
  have set_j: "py_setitem marks (int j) True = Inr (marks[j := True])"
    using j(1) Cons.prems(2) by (simp add: py_setitem_nat)
  have step: "mark_starts ts (t # rest) marks = mark_starts ts rest (marks[j := True])"
    using t(2,3) mx
    by (simp add: py_index_last [OF ne] py_index_first [OF ne] idx set_j bind_err_def)
  have unmarked: "\<not> marks ! j" using Cons.prems(4) j by auto
  have cnt: "length (filter (\<lambda>b. b) (marks[j := True])) = Suc (length (filter (\<lambda>b. b) marks))"
    using count_set_true [OF _ unmarked] j(1) Cons.prems(2) by simp
  have len: "length (marks[j := True]) = length ts" using Cons.prems(2) by simp
  have dist: "distinct rest" and fresh: "t \<notin> set rest" using Cons.prems(3) by simp_all
  have "\<forall>k<length ts. marks[j := True] ! k \<longrightarrow> ts ! k \<notin> set rest"
  proof (intro allI impI)
    fix k assume k: "k < length ts" and m: "marks[j := True] ! k"
    show "ts ! k \<notin> set rest"
    proof (cases "k = j")
      case True
      then show ?thesis using j(2) fresh by simp
    next
      case False
      then have "marks ! k" using m by simp
      then show ?thesis using Cons.prems(4) k by auto
    qed
  qed
  from Cons.IH [OF rest len dist this] obtain marks' where
    "mark_starts ts rest (marks[j := True]) = Inr marks'"
    "length (filter (\<lambda>b. b) marks')
       = length (filter (\<lambda>b. b) (marks[j := True])) + length rest"
    by blast
  then show ?case using step cnt by simp
qed

lemma mark_ends_count:
  assumes srt: "sorted_wrt (<) (ts :: real list)"
  shows "list_all (\<lambda>t. t \<in> set ts \<and> t \<noteq> hd ts \<and> t \<noteq> last ts) ends \<Longrightarrow>
         length marks = length ts \<Longrightarrow> distinct ends \<Longrightarrow>
         (\<forall>k<length ts. marks ! k \<longrightarrow> ts ! k \<notin> set ends) \<Longrightarrow>
         \<exists>marks'. mark_ends ts ends marks = Inr marks'
            \<and> length (filter (\<lambda>b. b) marks') = length (filter (\<lambda>b. b) marks) + length ends"
proof (induction ends arbitrary: marks)
  case Nil
  then show ?case by simp
next
  case (Cons t rest)
  from Cons.prems(1) have t: "t \<in> set ts" "t \<noteq> hd ts" "t \<noteq> last ts"
    and rest: "list_all (\<lambda>t. t \<in> set ts \<and> t \<noteq> hd ts \<and> t \<noteq> last ts) rest"
    by simp_all
  from t(1) obtain j where j: "j < length ts" "ts ! j = t" by (rule sampled_index)
  have ne: "ts \<noteq> []" using t(1) by auto
  have idx: "t2tidx ts t = Some j" using t2tidx_nth [OF srt j(1)] j(2) by simp
  have mx: "np_max ts = Inr (Max (set ts))" "\<not> Max (set ts) < t"
    using np_max_sampled [OF t(1)] by simp_all
  have mn: "np_min ts = Inr (Min (set ts))" "\<not> t < Min (set ts)"
    using np_min_sampled [OF t(1)] by simp_all
  have set_j: "py_setitem marks (int j) True = Inr (marks[j := True])"
    using j(1) Cons.prems(2) by (simp add: py_setitem_nat)
  have step: "mark_ends ts (t # rest) marks = mark_ends ts rest (marks[j := True])"
    using t(2,3) mx mn
    by (simp add: py_index_last [OF ne] py_index_first [OF ne] idx set_j bind_err_def)
  have unmarked: "\<not> marks ! j" using Cons.prems(4) j by auto
  have cnt: "length (filter (\<lambda>b. b) (marks[j := True])) = Suc (length (filter (\<lambda>b. b) marks))"
    using count_set_true [OF _ unmarked] j(1) Cons.prems(2) by simp
  have len: "length (marks[j := True]) = length ts" using Cons.prems(2) by simp
  have dist: "distinct rest" and fresh: "t \<notin> set rest" using Cons.prems(3) by simp_all
  have "\<forall>k<length ts. marks[j := True] ! k \<longrightarrow> ts ! k \<notin> set rest"
  proof (intro allI impI)
    fix k assume k: "k < length ts" and m: "marks[j := True] ! k"
    show "ts ! k \<notin> set rest"
    proof (cases "k = j")
      case True
      then show ?thesis using j(2) fresh by simp
    next
      case False
      then have "marks ! k" using m by simp
      then show ?thesis using Cons.prems(4) k by auto
    qed
  qed
  from Cons.IH [OF rest len dist this] obtain marks' where
    "mark_ends ts rest (marks[j := True]) = Inr marks'"
    "length (filter (\<lambda>b. b) marks')
       = length (filter (\<lambda>b. b) (marks[j := True])) + length rest"
    by blast
  then show ?case using step cnt by simp
qed

lemma schedule_boundaries_distinct:
  assumes ok: "schedule_ok ts windows"
  shows "distinct (map fst windows)" and "distinct (map snd windows)"
    and "set (map fst windows) \<inter> set (map snd windows) = {}"
proof -
  have ne: "fst (windows ! p) \<noteq> fst (windows ! q) \<and> snd (windows ! p) \<noteq> snd (windows ! q)
            \<and> fst (windows ! p) \<noteq> snd (windows ! q)"
    if "p < length windows" "q < length windows" "p \<noteq> q" for p q
    using schedule_disjoint [OF ok that] schedule_window_less [OF ok that(1)]
      schedule_window_less [OF ok that(2)]
    by auto
  show "distinct (map fst windows)"
    unfolding distinct_conv_nth using ne by simp
  show "distinct (map snd windows)"
    unfolding distinct_conv_nth using ne by simp
  show "set (map fst windows) \<inter> set (map snd windows) = {}"
  proof (rule ccontr)
    assume "set (map fst windows) \<inter> set (map snd windows) \<noteq> {}"
    then obtain x where "x \<in> set (map fst windows)" "x \<in> set (map snd windows)" by blast
    then obtain p q where pq: "p < length windows" "x = fst (windows ! p)"
        "q < length windows" "x = snd (windows ! q)"
      unfolding in_set_map_nth by blast
    show False
    proof (cases "p = q")
      case True
      then show ?thesis using schedule_window_less [OF ok pq(1)] pq(2,4) by simp
    next
      case False
      then show ?thesis using ne [OF pq(1) pq(3)] pq(2,4) by simp
    qed
  qed
qed

lemma init_perturbations_returns:
  assumes ok: "schedule_ok ts windows"
  shows "\<exists>marks fully. init_perturbations ts windows = Inr (marks, fully)"
proof -
  have srt: "sorted_wrt (<) ts" using ok by (simp add: schedule_ok_def)
  let ?m0 = "replicate (length ts) False"
  have "\<forall>k<length ts. ?m0 ! k \<longrightarrow> ts ! k \<notin> set (map fst windows)" by simp
  from mark_starts_count [OF srt schedule_lists(1) [OF ok] _ schedule_boundaries_distinct(1) [OF ok] this]
  obtain m1 where m1: "mark_starts ts (map fst windows) ?m0 = Inr m1"
      "length (filter (\<lambda>b. b) m1) = length (filter (\<lambda>b. b) ?m0) + length (map fst windows)"
    by auto
  from mark_starts_sampled [OF srt schedule_lists(1) [OF ok], of ?m0] m1(1)
  have c1: "length m1 = length ts"
      "\<forall>k<length ts. m1 ! k = (?m0 ! k \<or> ts ! k \<in> set (map fst windows))"
    by auto
  have "\<forall>k<length ts. m1 ! k \<longrightarrow> ts ! k \<notin> set (map snd windows)"
    using c1(2) schedule_boundaries_distinct(3) [OF ok] by auto
  from mark_ends_count [OF srt schedule_lists(2) [OF ok] c1(1)
      schedule_boundaries_distinct(2) [OF ok] this]
  obtain m2 where m2: "mark_ends ts (map snd windows) m1 = Inr m2"
      "length (filter (\<lambda>b. b) m2) = length (filter (\<lambda>b. b) m1) + length (map snd windows)"
    by auto
  have "length (filter (\<lambda>b. b) ?m0) = 0" by (induction "length ts") simp_all
  then have "length (filter (\<lambda>b. b) m2) = 2 * length windows"
    using m1(2) m2(2) by simp
  then have "length (filter (\<lambda>b. b) m2) mod 2 = 0" by simp
  then show ?thesis
    by (simp add: init_perturbations_def m1(1) m2(1) bind_err_def Let_def)
qed

subsubsection \<open>The growth rate of the forward transition\<close>














subsection \<open>The expected number of clusters\<close>

lemma exp_upper_8:
  fixes x :: real
  assumes "0 \<le> x" "x \<le> 1"
  shows "exp x \<le> (\<Sum>m<8. x ^ m / fact m) + 3 * x ^ 8 / fact 8"
proof -
  obtain t where t: "\<bar>t\<bar> \<le> \<bar>x\<bar>" "exp x = (\<Sum>m<8. x ^ m / fact m) + (exp t / fact 8) * x ^ 8"
    using Maclaurin_exp_le [of x 8] by blast
  have "t \<le> 1" using t(1) assms by linarith
  then have "exp t \<le> exp 1" by simp
  also have "\<dots> \<le> 3" by (rule exp_le)
  finally have "exp t \<le> 3" .
  then have "(exp t / fact 8) * x ^ 8 \<le> 3 * x ^ 8 / fact 8"
    using assms(1) by (simp add: divide_right_mono mult_right_mono)
  then show ?thesis using t(2) by linarith
qed

lemma exp_lower_8:
  fixes x :: real
  assumes "0 \<le> x"
  shows "(\<Sum>m<8. x ^ m / fact m) \<le> exp x"
proof -
  obtain t where t: "exp x = (\<Sum>m<8. x ^ m / fact m) + (exp t / fact 8) * x ^ 8"
    using Maclaurin_exp_le [of x 8] by blast
  have "0 \<le> (exp t / fact 8) * x ^ 8" using assms by simp
  then show ?thesis using t by linarith
qed

lemma ln_101_lower: "(46145 / 10000 :: real) \<le> ln 101"
proof -
  let ?x = "46145 / 80000 :: real"
  have "exp ?x \<le> (\<Sum>m<8. ?x ^ m / fact m) + 3 * ?x ^ 8 / fact 8"
    by (rule exp_upper_8) simp_all
  also have "\<dots> \<le> 178036 / 100000"
    by (simp add: lessThan_nat_numeral lessThan_Suc fact_numeral power_divide)
  finally have a: "exp ?x \<le> 178036 / 100000" .
  have "exp (46145 / 10000 :: real) = exp (of_nat 8 * ?x)" by simp
  also have "\<dots> = exp ?x ^ 8" by (rule exp_of_nat_mult)
  also have "\<dots> \<le> (178036 / 100000) ^ 8"
    using a by (intro power_mono) simp_all
  also have "\<dots> \<le> 101" by (simp add: power_divide)
  finally have "exp (46145 / 10000 :: real) \<le> 101" .
  then show ?thesis using ln_ge_iff [of 101 "46145 / 10000"] by linarith
qed

lemma ln_101_upper: "ln 101 \<le> (46155 / 10000 :: real)"
proof -
  let ?x = "46155 / 80000 :: real"
  have "178057 / 100000 \<le> (\<Sum>m<8. ?x ^ m / fact m)"
    by (simp add: lessThan_nat_numeral lessThan_Suc fact_numeral power_divide)
  also have "\<dots> \<le> exp ?x"
    by (rule exp_lower_8) simp
  finally have a: "178057 / 100000 \<le> exp ?x" .
  have "(101::real) \<le> (178057 / 100000) ^ 8" by (simp add: power_divide)
  also have "\<dots> \<le> exp ?x ^ 8"
    using a by (intro power_mono) simp_all
  also have "\<dots> = exp (of_nat 8 * ?x)" by (rule exp_of_nat_mult [symmetric])
  also have "\<dots> = exp (46155 / 10000)" by simp
  finally have "(101::real) \<le> exp (46155 / 10000)" .
  then have "ln 101 \<le> ln (exp (46155 / 10000 :: real))"
    by (subst ln_le_cancel_iff) simp_all
  then show ?thesis by simp
qed

text \<open>
  C8.  \<^verbatim>\<open>expected_n_clusters\<close> returns \<open>conc * ln ((n_asvs + conc) / conc)\<close>, where
  \<open>conc\<close> is the (positive) mean of the prior of the concentration parameter.  For \<open>conc = 1\<close> and
  \<open>n_asvs = 100\<close> the result is \<open>ln 101\<close>, which lies within \<open>0.0005\<close> of \<open>4.615\<close>.
\<close>

theorem expected_n_clusters_formula:
  "(0 < concentration_prior_mean G \<longrightarrow>
      expected_n_clusters G =
        concentration_prior_mean G
        * ln ((real (data_n_asvs G) + concentration_prior_mean G) / concentration_prior_mean G))
   \<and> expected_n_clusters \<lparr>data_n_asvs = 100, concentration_prior_mean = 1\<rparr> = ln 101
   \<and> \<bar>expected_n_clusters \<lparr>data_n_asvs = 100, concentration_prior_mean = 1\<rparr> - 4615 / 1000\<bar>
       \<le> 5 / 10000"
proof (intro conjI)
  show "0 < concentration_prior_mean G \<longrightarrow>
      expected_n_clusters G =
        concentration_prior_mean G
        * ln ((real (data_n_asvs G) + concentration_prior_mean G) / concentration_prior_mean G)"
    by (simp add: expected_n_clusters_def Let_def)
  show e: "expected_n_clusters \<lparr>data_n_asvs = 100, concentration_prior_mean = 1\<rparr> = ln 101"
    by (simp add: expected_n_clusters_def Let_def)
  show "\<bar>expected_n_clusters \<lparr>data_n_asvs = 100, concentration_prior_mean = 1\<rparr> - 4615 / 1000\<bar>
       \<le> 5 / 10000"
    unfolding e using ln_101_lower ln_101_upper by linarith
qed

text \<open>The formula at twelve taxa and a prior mean of \<open>2\<close>.\<close>

theorem expected_n_clusters_formula_witness:
  "(0::real) < 2
   \<and> expected_n_clusters \<lparr>data_n_asvs = 12, concentration_prior_mean = 2\<rparr>
       = 2 * ln ((12 + 2) / 2)"
  using expected_n_clusters_formula [of "\<lparr>data_n_asvs = 12, concentration_prior_mean = 2\<rparr>"]
  by simp

subsection \<open>The conjugate update of the process variance\<close>

lemma rebuild_diag_fields:
  assumes "ProcessVarGlobal_rebuild_diag d st = Inr st'"
  shows "pv_dof st' = pv_dof st \<and> pv_scale st' = pv_scale st"
  using assms
  by (auto simp add: ProcessVarGlobal_rebuild_diag_def bind_err_def Let_def
      split: sum.splits if_splits)

lemma rebuild_diag_returns:
  assumes "length (dt_vec d) = length (rows_to_include_zero_inflation d)
           \<or> zero_inflation_transition_policy d = None"
  shows "\<exists>st'. ProcessVarGlobal_rebuild_diag d st = Inr st'"
  using assms
  by (auto simp add: ProcessVarGlobal_rebuild_diag_def bind_err_def Let_def np_mask_def)

text \<open>
  C3.  A call of \<^verbatim>\<open>ProcessVarGlobal.update\<close> whose residual vector \<open>z\<close> has one entry per
  selected row returns with the posterior degrees of freedom \<open>dof' = dof_prior + N\<close> and
  the posterior scale \<open>scale' = (scale_prior * dof_prior + \<Sum> (z\<^sub>i * sqrt \<Delta>t\<^sub>i)\<^sup>2) / dof'\<close>,
  where \<open>N\<close> is the number of entries of \<open>z\<close> and \<open>sqrt \<Delta>t\<^sub>i\<close> is the entry of
  \<^verbatim>\<open>sqrt_dt_vec\<close> of the same row.
\<close>

theorem process_var_update_posterior:
  assumes pos: "0 < prior_dof st"
    and sel: "selected_sqrt_dt d = Inr s"
    and len: "length z = length s"
    and dts: "length (dt_vec d) = length (sqrt_dt_vec d)"
  shows "\<exists>st'. ProcessVarGlobal_update draw d z st = Inr st'
           \<and> pv_dof st' = prior_dof st + real (length z)
           \<and> pv_scale st' =
               (prior_scale st * prior_dof st + (\<Sum>i<length z. (z ! i * s ! i)\<^sup>2)) / pv_dof st'"
proof -
  let ?zs = "map2 (*) z s"
  let ?dof = "prior_dof st + real (length z)"
  let ?scale = "(prior_scale st * prior_dof st + sum_list (map (\<lambda>x. x\<^sup>2) ?zs)) / ?dof"
  let ?st2 = "st\<lparr>pv_dof := ?dof, pv_scale := ?scale, pv_value := draw ?dof ?scale\<rparr>"
  have mul: "np_multiply z s = Inr ?zs" using len by (simp add: np_multiply_def)
  have "length (dt_vec d) = length (rows_to_include_zero_inflation d)
           \<or> zero_inflation_transition_policy d = None"
    using sel dts by (auto simp add: selected_sqrt_dt_def np_mask_def split: if_splits)
  then obtain st' where r: "ProcessVarGlobal_rebuild_diag d ?st2 = Inr st'"
    using rebuild_diag_returns by blast
  have u: "ProcessVarGlobal_update draw d z st = Inr st'"
    using sel mul r len by (simp add: ProcessVarGlobal_update_def bind_err_def Let_def)
  have f: "pv_dof st' = ?dof" "pv_scale st' = ?scale"
    using rebuild_diag_fields [OF r] by simp_all
  have "sum_list (map (\<lambda>x. x\<^sup>2) ?zs) = (\<Sum>i<length ?zs. (?zs ! i)\<^sup>2)"
    by (simp add: sum_list_sum_nth atLeast0LessThan)
  also have "\<dots> = (\<Sum>i<length z. (z ! i * s ! i)\<^sup>2)"
    using len by (intro sum.cong) simp_all
  finally have "sum_list (map (\<lambda>x. x\<^sup>2) ?zs) = (\<Sum>i<length z. (z ! i * s ! i)\<^sup>2)" .
  then show ?thesis using u f by simp
qed


text \<open>The theorem at two residuals \<open>3\<close> and \<open>1\<close> over the time steps \<open>1\<close> and \<open>4\<close>.\<close>

theorem process_var_update_posterior_witness:
  "(0::real) < 5 / 2
   \<and> (\<exists>st'. ProcessVarGlobal_update (\<lambda>dof scale. scale)
              \<lparr>dt_vec = [1, 4], sqrt_dt_vec = [1, 2],
               zero_inflation_transition_policy = None, rows_to_include_zero_inflation = []\<rparr>
              [3, 1]
              \<lparr>prior_dof = 5 / 2, prior_scale = 1 / 125, pv_dof = 0, pv_scale = 0,
               pv_value = 1, pv_diag = [], pv_prec = []\<rparr> = Inr st'
           \<and> pv_dof st' = 5 / 2 + 2
           \<and> pv_scale st' = (1 / 125 * (5 / 2) + ((3 * 1)\<^sup>2 + (1 * 2)\<^sup>2)) / pv_dof st')"
  using process_var_update_posterior
    [of "\<lparr>prior_dof = 5 / 2, prior_scale = 1 / 125, pv_dof = 0, pv_scale = 0,
               pv_value = 1, pv_diag = [], pv_prec = []\<rparr>"
        "\<lparr>dt_vec = [1, 4], sqrt_dt_vec = [1, 2],
               zero_inflation_transition_policy = None, rows_to_include_zero_inflation = []\<rparr>"
        "[1, 2]" "[3, 1]" "\<lambda>dof scale. scale"]
  by (simp add: selected_sqrt_dt_def lessThan_Suc numeral_2_eq_2)

subsection \<open>The truncation presets of the self-interactions\<close>

text \<open>
  C2.  The docstring of \<^verbatim>\<open>SelfInteractions.initialize\<close> gives the bounds of the presets as
  \<^verbatim>\<open>(growth.high/1e13, growth.low/1e2)\<close> for the mouse and
  \<^verbatim>\<open>(growth.high/1e14, growth.low/1e2)\<close> for the human, that is, \<^verbatim>\<open>growth.high\<close> over the
  assumed high abundance and \<^verbatim>\<open>growth.low\<close> over the assumed low abundance.  The code
  divides the other way round: for the presets \<^verbatim>\<open>'mouse'\<close> and \<^verbatim>\<open>'human'\<close> with no rescale
  value, an initialised growth variable and growth bounds \<open>0 < lo \<le> hi\<close>, it sets
  \<^verbatim>\<open>low = hi / 1e2\<close> and \<^verbatim>\<open>high = lo / 1e13\<close> (\<^verbatim>\<open>1e14\<close> for the human), and the upper
  truncation bound is then strictly below the lower one.
\<close>

theorem self_interaction_preset_bounds_inverted:
  assumes "name = ''mouse'' \<or> name = ''human''"
    and "growth_initialized growth" and "0 \<le> delay"
    and "growth_low growth = Finite lo" and "growth_high growth = Finite hi"
    and "0 < lo" and "lo \<le> hi"
  shows "SelfInteractions_initialize_truncation growth (TStr name) delay None self =
           Inr (self\<lparr>si_delay := delay,
                     si_low := Finite (hi / 10 ^ 2),
                     si_high := Finite (lo / (if name = ''mouse'' then 10 ^ 13 else 10 ^ 14))\<rparr>)
         \<and> lo / (if name = ''mouse'' then 10 ^ 13 else 10 ^ 14) < hi / 10 ^ 2"
proof -
  have eq: "SelfInteractions_initialize_truncation growth (TStr name) delay None self =
           Inr (self\<lparr>si_delay := delay,
                     si_low := Finite (hi / 10 ^ 2),
                     si_high := Finite (lo / (if name = ''mouse'' then 10 ^ 13 else 10 ^ 14))\<rparr>)"
    using assms(1-5)
    by (auto simp add: SelfInteractions_initialize_truncation_def Let_def)
  have "lo / 10 ^ 14 \<le> lo / 10 ^ 13"
    using assms(6) by (simp add: frac_le)
  moreover have "lo / 10 ^ 13 < lo / 10 ^ 2"
    using assms(6) by (simp add: frac_less2)
  moreover have "lo / 10 ^ 2 \<le> hi / 10 ^ 2"
    using assms(7) by (simp add: divide_right_mono)
  ultimately have "lo / (if name = ''mouse'' then 10 ^ 13 else 10 ^ 14) < hi / 10 ^ 2"
    by (simp split: if_splits)
  with eq show ?thesis by simp
qed

text \<open>
  The theorem for the mouse preset over the growth bounds \<open>(0.1, 2)\<close>: the code returns
  the bounds \<open>(2 / 1e2, 0.1 / 1e13)\<close>, an empty interval, where the docstring promises
  \<open>(2 / 1e13, 0.1 / 1e2)\<close>.
\<close>

theorem self_interaction_preset_bounds_inverted_witness:
  "(''mouse'' = ''mouse'' \<or> ''mouse'' = ''human'') \<and> growth_initialized example_growth
   \<and> (0::int) \<le> 0
   \<and> growth_low example_growth = Finite (1 / 10) \<and> growth_high example_growth = Finite 2
   \<and> (0::real) < 1 / 10 \<and> (1 / 10 :: real) \<le> 2
   \<and> SelfInteractions_initialize_truncation example_growth (TStr ''mouse'') 0 None
         example_self_interactions
       = Inr (example_self_interactions\<lparr>si_delay := 0,
                si_low := Finite (2 / 10 ^ 2), si_high := Finite ((1 / 10) / 10 ^ 13)\<rparr>)
   \<and> \<not> bound_le (Finite (2 / 10 ^ 2)) (Finite ((1 / 10) / 10 ^ 13))
   \<and> Finite (2 / 10 ^ 2) \<noteq> bound_div (growth_high example_growth) (10 ^ 13)
   \<and> Finite ((1 / 10) / 10 ^ 13) \<noteq> bound_div (growth_low example_growth) (10 ^ 2)"
  using self_interaction_preset_bounds_inverted
    [of "''mouse''" example_growth 0 "1 / 10" 2 example_self_interactions]
  by (simp add: example_growth_def)

subsection \<open>Unimplemented configurations\<close>

text \<open>
  C6.  \<^verbatim>\<open>RegressCoeff.initialize\<close> called with \<^verbatim>\<open>update_jointly_growth_si = True\<close> raises
  whatever the other argument is, and raises \<^verbatim>\<open>NotImplementedError\<close> when the other
  argument is a boolean, as its type check demands; \<^verbatim>\<open>ClusterAssignments.update_mp\<close>
  raises \<^verbatim>\<open>NotImplementedError\<close> whenever a zero-inflation transition policy is set,
  before anything else is done.
\<close>

theorem unimplemented_combinations_raise:
  "(\<exists>e. RegressCoeff_initialize perturbations jointly_pert_inter (PyBool True) self = Inl e)
   \<and> RegressCoeff_initialize perturbations (PyBool b) (PyBool True) self = Inl NotImplementedError
   \<and> ClusterAssignments_update_mp rest (Some policy) st = Inl NotImplementedError"
  by (cases jointly_pert_inter)
     (simp_all add: RegressCoeff_initialize_def ClusterAssignments_update_mp_def Let_def)

subsection \<open>The joint update of interactions and perturbations\<close>

lemma joint_rhs:
  assumes "truthy (update_jointly_pert_inter self)" and "rc_there_are_perturbations self"
    and "interactions_delay self \<le> interactions_sample_iter self"
    and "pert_mag_delay self \<le> pert_mag_sample_iter self"
  shows "update_perts_and_inter inp self =
           (if n_columns inp [CLUSTER_INTERACTION_VALUE, PERT_VALUE] = 0 then Inr []
            else (case pinv_error inp of
                   Some e \<Rightarrow> Inl e
                 | None \<Rightarrow>
                    (case joint_sample inp of
                       None \<Rightarrow> Inr [UpdatePerturbations, UpdateInteractions]
                     | Some v \<Rightarrow>
                         Inr [AssignInteractions (take (num_pos_indicators inp) v),
                              AssignPerturbations (drop (num_pos_indicators inp) v)])))"
  using assms
  by (simp add: update_perts_and_inter_def Let_def split: option.splits)

text \<open>
  C5 (as amended).  When interactions and perturbations are configured to be updated
  jointly and both are past their delays, the joint update returns without updating
  either of them when the combined design matrix has no columns, and it falls back to
  updating them separately (the perturbations, then the interactions) when the draw of
  the joint sample fails.
\<close>

theorem joint_update_fallback:
  assumes "truthy (update_jointly_pert_inter self)" and "rc_there_are_perturbations self"
    and "interactions_delay self \<le> interactions_sample_iter self"
    and "pert_mag_delay self \<le> pert_mag_sample_iter self"
  shows "(n_columns inp [CLUSTER_INTERACTION_VALUE, PERT_VALUE] = 0
            \<longrightarrow> update_perts_and_inter inp self = Inr [])
       \<and> (0 < n_columns inp [CLUSTER_INTERACTION_VALUE, PERT_VALUE]
            \<and> pinv_error inp = None \<and> joint_sample inp = None
            \<longrightarrow> update_perts_and_inter inp self = Inr [UpdatePerturbations, UpdateInteractions])"
  using joint_rhs [OF assms, of inp] by simp

text \<open>The theorem at a design matrix without columns and at a failed draw.\<close>

theorem joint_update_fallback_witness:
  "truthy (update_jointly_pert_inter example_regress_coeff)
   \<and> rc_there_are_perturbations example_regress_coeff
   \<and> interactions_delay example_regress_coeff \<le> interactions_sample_iter example_regress_coeff
   \<and> pert_mag_delay example_regress_coeff \<le> pert_mag_sample_iter example_regress_coeff
   \<and> update_perts_and_inter
        \<lparr>uniform_draw = 0, n_columns = (\<lambda>keys. 0), pinv_error = None,
         joint_sample = Some [], num_pos_indicators = 0\<rparr> example_regress_coeff = Inr []
   \<and> update_perts_and_inter
        \<lparr>uniform_draw = 0, n_columns = (\<lambda>keys. 3), pinv_error = None,
         joint_sample = None, num_pos_indicators = 2\<rparr> example_regress_coeff
       = Inr [UpdatePerturbations, UpdateInteractions]"
proof -
  have h: "truthy (update_jointly_pert_inter example_regress_coeff)"
    "rc_there_are_perturbations example_regress_coeff"
    "interactions_delay example_regress_coeff \<le> interactions_sample_iter example_regress_coeff"
    "pert_mag_delay example_regress_coeff \<le> pert_mag_sample_iter example_regress_coeff"
    by (simp_all add: example_regress_coeff_def)
  show ?thesis
    using h
      joint_update_fallback [OF h, of "\<lparr>uniform_draw = 0, n_columns = (\<lambda>keys. 0),
         pinv_error = None, joint_sample = Some [], num_pos_indicators = 0\<rparr>"]
      joint_update_fallback [OF h, of "\<lparr>uniform_draw = 0, n_columns = (\<lambda>keys. 3),
         pinv_error = None, joint_sample = None, num_pos_indicators = 2\<rparr>"]
    by simp
qed

text \<open>
  With no columns, nothing is updated: the result is not the sequence of the two separate
  updates, in either order.
\<close>

theorem joint_update_zero_columns_counterexample:
  "update_perts_and_inter
        \<lparr>uniform_draw = 0, n_columns = (\<lambda>keys. 0), pinv_error = None,
         joint_sample = Some [], num_pos_indicators = 0\<rparr> example_regress_coeff = Inr []
   \<and> update_perts_and_inter
        \<lparr>uniform_draw = 0, n_columns = (\<lambda>keys. 0), pinv_error = None,
         joint_sample = Some [], num_pos_indicators = 0\<rparr> example_regress_coeff
       \<noteq> Inr [UpdatePerturbations, UpdateInteractions]
   \<and> update_perts_and_inter
        \<lparr>uniform_draw = 0, n_columns = (\<lambda>keys. 0), pinv_error = None,
         joint_sample = Some [], num_pos_indicators = 0\<rparr> example_regress_coeff
       \<noteq> Inr [UpdateInteractions, UpdatePerturbations]"
  by (simp add: update_perts_and_inter_def example_regress_coeff_def Let_def)

subsection \<open>The crash dump of the inversion wrappers\<close>

text \<open>
  C7.  When all three inversion routines raise on the (densified) matrix, \<^verbatim>\<open>pinv\<close> saves
  that matrix under \<^verbatim>\<open>crashes/\<close>, in a file whose name is built from the operation
  (\<^verbatim>\<open>pinv_error\<close>), the sample iteration of the variable, the name of the variable and the
  name of its graph, and the exception that reached the handler propagates; when
  \<^verbatim>\<open>pl.math.log_det\<close> raises, \<^verbatim>\<open>log_det\<close> does the same with the operation
  \<^verbatim>\<open>logdet_error\<close>.  In both cases the result is the exception, never a value.
\<close>

theorem crash_dump_then_reraise:
  "(np_linalg_pinv (densify M) = Inl e1 \<and> scipy_linalg_pinv (densify M) = Inl e2
      \<and> scipy_linalg_inv (densify M) = Inl e3
    \<longrightarrow> snd (pinv np_linalg_pinv scipy_linalg_pinv scipy_linalg_inv M var w) = Inl e3
        \<and> saved_arrays (fst (pinv np_linalg_pinv scipy_linalg_pinv scipy_linalg_inv M var w))
            (''crashes/pinv_error_iter'' @ format_sample_iter (var_sample_iter var)
             @ ''_var'' @ var_name var @ ''pinv_'' @ var_graph_name var @ ''.npy'')
          = Some (densify M)
        \<and> ''crashes/'' \<in> directories (fst (pinv np_linalg_pinv scipy_linalg_pinv scipy_linalg_inv M var w)))
   \<and> (routine (densify M) = Inl e
    \<longrightarrow> snd (log_det routine M var w) = Inl e
        \<and> saved_arrays (fst (log_det routine M var w))
            (''crashes/logdet_error_iter'' @ format_sample_iter (var_sample_iter var)
             @ ''_var'' @ var_name var @ ''pinv_'' @ var_graph_name var @ ''.npy'')
          = Some (densify M)
        \<and> ''crashes/'' \<in> directories (fst (log_det routine M var w)))"
  by (simp add: pinv_def log_det_def dump_crash_def pinv_filename_def logdet_filename_def Let_def)

text \<open>
  The theorem at the singular matrix with the rows \<open>(1, 2)\<close> and \<open>(2, 4)\<close>, given sparse to
  \<^verbatim>\<open>pinv\<close> and dense to \<^verbatim>\<open>log_det\<close>.
\<close>

theorem crash_dump_then_reraise_witness:
  "singular_routine ''np.linalg.pinv'' (densify (Sparse 2 2 [((0, 0), 1), ((0, 1), 2), ((1, 0), 2), ((1, 1), 4)]))
     = (Inl (LinAlgError ''np.linalg.pinv'') :: py_error + real list list)
   \<and> snd (pinv (singular_routine ''np.linalg.pinv'') (singular_routine ''scipy.linalg.pinv'')
             (singular_routine ''scipy.linalg.inv'')
             (Sparse 2 2 [((0, 0), 1), ((0, 1), 2), ((1, 0), 2), ((1, 1), 4)])
             example_variable empty_world)
       = Inl (LinAlgError ''scipy.linalg.inv'')
   \<and> saved_arrays (fst (pinv (singular_routine ''np.linalg.pinv'')
             (singular_routine ''scipy.linalg.pinv'') (singular_routine ''scipy.linalg.inv'')
             (Sparse 2 2 [((0, 0), 1), ((0, 1), 2), ((1, 0), 2), ((1, 1), 4)])
             example_variable empty_world))
         ''crashes/pinv_error_iter12_varProcess Variancepinv_graph.npy''
       = Some [[1, 2], [2, 4]]
   \<and> snd (log_det (singular_routine ''log_det'') (Dense [[1, 2], [2, 4]])
             example_variable empty_world)
       = Inl (LinAlgError ''log_det'')
   \<and> saved_arrays (fst (log_det (singular_routine ''log_det'') (Dense [[1, 2], [2, 4]])
             example_variable empty_world))
         ''crashes/logdet_error_iter12_varProcess Variancepinv_graph.npy''
       = Some [[1, 2], [2, 4]]"
proof -
  let ?S = "Sparse 2 2 [((0, 0), 1), ((0, 1), 2), ((1, 0), 2), ((1, 1), 4)]"
  have d: "densify ?S = [[1, 2], [2, 4]]"
    by code_simp
  have n: "format_sample_iter (var_sample_iter example_variable) = ''12''"
    by (simp add: format_sample_iter_def example_variable_def string_of_int_def)
  have h: "singular_routine ''np.linalg.pinv'' (densify ?S)
             = (Inl (LinAlgError ''np.linalg.pinv'') :: py_error + real list list)"
    "singular_routine ''scipy.linalg.pinv'' (densify ?S)
             = (Inl (LinAlgError ''scipy.linalg.pinv'') :: py_error + real list list)"
    "singular_routine ''scipy.linalg.inv'' (densify ?S)
             = (Inl (LinAlgError ''scipy.linalg.inv'') :: py_error + real list list)"
    "singular_routine ''log_det'' (densify (Dense [[1, 2], [2, 4]]))
             = (Inl (LinAlgError ''log_det'') :: py_error + real)"
    by (simp_all add: singular_routine_def)
  show ?thesis
    using h d n
      crash_dump_then_reraise
        [of "singular_routine ''np.linalg.pinv''" ?S "LinAlgError ''np.linalg.pinv''"
            "singular_routine ''scipy.linalg.pinv''" "LinAlgError ''scipy.linalg.pinv''"
            "singular_routine ''scipy.linalg.inv''" "LinAlgError ''scipy.linalg.inv''"
            example_variable empty_world]
      crash_dump_then_reraise
        [of _ "Dense [[1, 2], [2, 4]]" _ _ _ _ _ example_variable empty_world
            "singular_routine ''log_det''" "LinAlgError ''log_det''"]
    by (simp add: example_variable_def)
qed

subsection \<open>Marginal log-likelihoods of an empty design\<close>









subsection \<open>Root-mean-square errors of the model comparison\<close>

lemma sum_list_nth_lessThan: "sum_list xs = (\<Sum>i<length xs. xs ! i)" for xs :: "real list"
  by (simp add: sum_list_sum_nth atLeast0LessThan)

lemma sum_list_concat_rows: "sum_list (concat xss) = sum_list (map sum_list xss)"
  for xss :: "real list list"
  by (induction xss) simp_all

lemma rectangular_nth: "rectangular T n A \<Longrightarrow> t < T \<Longrightarrow> length (A ! t) = n"
  by (simp add: rectangular_def list_all_length)

lemma rectangular_drop: "rectangular T n A \<Longrightarrow> rectangular (T - 1) n (drop 1 A)"
  by (auto simp add: rectangular_def list_all_length)

lemma rectangular_lengths: "rectangular T n A \<Longrightarrow> map length A = replicate T n"
  by (auto simp add: rectangular_def list_all_length intro: nth_equalityI)

lemma squared_difference_sum:
  assumes A: "rectangular T n A" and B: "rectangular T n B"
  shows "sum_list (concat (np_square (map2 (map2 (-)) A B)))
           = (\<Sum>t<T. \<Sum>j<n. (A ! t ! j - B ! t ! j)\<^sup>2)"
    and "length (concat (np_square (map2 (map2 (-)) A B))) = T * n"
proof -
  let ?E = "np_square (map2 (map2 (-)) A B)"
  have lenA: "length A = T" and lenB: "length B = T"
    using A B by (simp_all add: rectangular_def)
  have lenE: "length ?E = T" using lenA lenB by (simp add: np_square_def)
  have row: "?E ! t = map (\<lambda>j. (A ! t ! j - B ! t ! j)\<^sup>2) [0..<n]" if "t < T" for t
  proof -
    have a: "length (A ! t) = n" and b: "length (B ! t) = n"
      using rectangular_nth [OF A that] rectangular_nth [OF B that] by simp_all
    have "?E ! t = map (\<lambda>x. x\<^sup>2) (map2 (-) (A ! t) (B ! t))"
      using that lenA lenB by (simp add: np_square_def)
    also have "\<dots> = map (\<lambda>j. (A ! t ! j - B ! t ! j)\<^sup>2) [0..<n]"
      using a b by (intro nth_equalityI) simp_all
    finally show ?thesis .
  qed
  have "sum_list (concat ?E) = sum_list (map sum_list ?E)" by (rule sum_list_concat_rows)
  also have "\<dots> = (\<Sum>t<length ?E. sum_list (?E ! t))"
    by (simp add: sum_list_nth_lessThan)
  also have "\<dots> = (\<Sum>t<T. \<Sum>j<n. (A ! t ! j - B ! t ! j)\<^sup>2)"
    unfolding lenE
    by (intro sum.cong refl) (simp add: row sum_list_sum_nth atLeast0LessThan)
  finally show "sum_list (concat ?E) = (\<Sum>t<T. \<Sum>j<n. (A ! t ! j - B ! t ! j)\<^sup>2)" .
  have "map length ?E = replicate T n"
    using lenE by (intro nth_equalityI) (simp_all add: row)
  then show "length (concat ?E) = T * n"
    by (simp add: length_concat sum_list_replicate)
qed

lemma rmse_value:
  assumes A: "rectangular T n tr" and B: "rectangular T n pred"
  shows "rmse tr pred = Inr (rmse_spec T n (\<lambda>t j. tr ! t ! j) (\<lambda>t j. pred ! t ! j))"
proof -
  let ?A = "drop 1 tr" and ?B = "drop 1 pred"
  have dA: "rectangular (T - 1) n ?A" and dB: "rectangular (T - 1) n ?B"
    by (rule rectangular_drop [OF A], rule rectangular_drop [OF B])
  have same: "map length ?A = map length ?B"
    using rectangular_lengths [OF dA] rectangular_lengths [OF dB] by simp
  have lenA: "length tr = T" and lenB: "length pred = T"
    using A B by (simp_all add: rectangular_def)
  have "sum_list (concat (np_square (map2 (map2 (-)) ?A ?B)))
          = (\<Sum>t<T - 1. \<Sum>j<n. (?A ! t ! j - ?B ! t ! j)\<^sup>2)"
    by (rule squared_difference_sum(1) [OF dA dB])
  also have "\<dots> = (\<Sum>t<T - 1. \<Sum>j<n. (tr ! (t + 1) ! j - pred ! (t + 1) ! j)\<^sup>2)"
    using lenA lenB by (intro sum.cong refl) simp
  also have "\<dots> = (\<Sum>t = 1..<T. \<Sum>j<n. (tr ! t ! j - pred ! t ! j)\<^sup>2)"
  proof (cases "T = 0")
    case True
    then show ?thesis by simp
  next
    case False
    have "(\<Sum>t = 1..<T. \<Sum>j<n. (tr ! t ! j - pred ! t ! j)\<^sup>2)
            = (\<Sum>t = 0..<T - 1. \<Sum>j<n. (tr ! (t + 1) ! j - pred ! (t + 1) ! j)\<^sup>2)"
      using False sum.shift_bounds_nat_ivl [of "\<lambda>t. \<Sum>j<n. (tr ! t ! j - pred ! t ! j)\<^sup>2" 0 1 "T - 1"]
      by simp
    then show ?thesis by (simp add: atLeast0LessThan)
  qed
  finally have s: "sum_list (concat (np_square (map2 (map2 (-)) ?A ?B)))
          = (\<Sum>t = 1..<T. \<Sum>j<n. (tr ! t ! j - pred ! t ! j)\<^sup>2)" .
  have l: "length (concat (np_square (map2 (map2 (-)) ?A ?B))) = (T - 1) * n"
    by (rule squared_difference_sum(2) [OF dA dB])
  show ?thesis
    unfolding rmse_def np_subtract_def bind_err_def np_mean_def rmse_spec_def
    using same s l by simp
qed


lemma rmse_spec_cong:
  assumes "\<And>t j. 1 \<le> t \<Longrightarrow> t < T \<Longrightarrow> j < n \<Longrightarrow> f t j = f' t j"
    and "\<And>t j. 1 \<le> t \<Longrightarrow> t < T \<Longrightarrow> j < n \<Longrightarrow> g t j = g' t j"
  shows "rmse_spec T n f g = rmse_spec T n f' g'"
proof -
  have "(\<Sum>t = 1..<T. \<Sum>j<n. (f t j - g t j)\<^sup>2) = (\<Sum>t = 1..<T. \<Sum>j<n. (f' t j - g' t j)\<^sup>2)"
    using assms by (intro sum.cong refl) simp
  then show ?thesis by (simp add: rmse_spec_def)
qed

lemma rmse_spec_same: "rmse_spec T n f f = 0"
  by (simp add: rmse_spec_def)

lemma normalize_rows_rectangular:
  "rectangular T n tr \<Longrightarrow> rectangular T n (normalize_rows tr)"
  by (simp add: rectangular_def normalize_rows_def list_all_length)

lemma normalize_rows_nth:
  assumes "rectangular T n tr" and "t < T" and "j < n"
  shows "normalize_rows tr ! t ! j = tr ! t ! j / sum_list (tr ! t)"
proof -
  have "length tr = T" using assms(1) by (simp add: rectangular_def)
  moreover have "length (tr ! t) = n" using assms(1,2) by (rule rectangular_nth)
  ultimately show ?thesis using assms(2,3) by (simp add: normalize_rows_def)
qed

lemma rmse_normalized_value:
  assumes A: "rectangular T n tr" and B: "rectangular T n pred"
  shows "rmse (normalize_rows tr) pred =
           Inr (rmse_spec T n (\<lambda>t j. tr ! t ! j / sum_list (tr ! t)) (\<lambda>t j. pred ! t ! j))"
proof -
  have "rmse (normalize_rows tr) pred =
          Inr (rmse_spec T n (\<lambda>t j. normalize_rows tr ! t ! j) (\<lambda>t j. pred ! t ! j))"
    using normalize_rows_rectangular [OF A] B by (rule rmse_value)
  also have "rmse_spec T n (\<lambda>t j. normalize_rows tr ! t ! j) (\<lambda>t j. pred ! t ! j)
           = rmse_spec T n (\<lambda>t j. tr ! t ! j / sum_list (tr ! t)) (\<lambda>t j. pred ! t ! j)"
    by (rule rmse_spec_cong) (simp_all add: normalize_rows_nth [OF A])
  finally show ?thesis .
qed

lemma static_prediction_rectangular:
  assumes "rectangular T n tr"
  shows "rectangular T n (static_prediction tr)"
proof (cases tr)
  case Nil
  then show ?thesis using assms by (simp add: static_prediction_def rectangular_def)
next
  case (Cons first rest)
  then show ?thesis
    using assms by (auto simp add: static_prediction_def rectangular_def list_all_length)
qed

lemma static_prediction_nth:
  assumes "rectangular T n tr" and "t < T"
  shows "static_prediction tr ! t = tr ! 0"
proof (cases tr)
  case Nil
  then show ?thesis using assms by (simp add: rectangular_def)
next
  case (Cons first rest)
  then show ?thesis using assms by (simp add: static_prediction_def rectangular_def)
qed

lemma rmse_static_value:
  assumes A: "rectangular T n tr"
  shows "rmse tr (static_prediction tr) =
           Inr (rmse_spec T n (\<lambda>t j. tr ! t ! j) (\<lambda>t j. tr ! 0 ! j))"
proof -
  have "rmse tr (static_prediction tr) =
          Inr (rmse_spec T n (\<lambda>t j. tr ! t ! j) (\<lambda>t j. static_prediction tr ! t ! j))"
    using A static_prediction_rectangular [OF A] by (rule rmse_value)
  also have "rmse_spec T n (\<lambda>t j. tr ! t ! j) (\<lambda>t j. static_prediction tr ! t ! j)
           = rmse_spec T n (\<lambda>t j. tr ! t ! j) (\<lambda>t j. tr ! 0 ! j)"
    by (rule rmse_spec_cong) (simp_all add: static_prediction_nth [OF A])
  finally show ?thesis .
qed

lemma compute_rmses_from_value:
  assumes "\<forall>k<length truth. rectangular (T k) (n k) (truth ! k)
             \<and> rectangular (T k) (n k) (pred k)
             \<and> (\<exists>rest. files (prediction_file dataset (i + k) model) = Some (pred k # rest))"
  shows "compute_rmses_from files dataset model i truth =
           Inr (map (\<lambda>k. rmse_spec (T k) (n k)
                            (\<lambda>t j. truth ! k ! t ! j / sum_list (truth ! k ! t))
                            (\<lambda>t j. pred k ! t ! j)) [0..<length truth],
                map normalize_rows truth)"
  using assms
proof (induction truth arbitrary: i T n pred)
  case Nil
  then show ?case by simp
next
  case (Cons tr rest)
  from Cons.prems have h0: "rectangular (T 0) (n 0) tr" "rectangular (T 0) (n 0) (pred 0)"
    and f0: "\<exists>r. files (prediction_file dataset i model) = Some (pred 0 # r)"
    by auto
  then obtain r where r: "files (prediction_file dataset i model) = Some (pred 0 # r)" by blast
  have step: "\<forall>k<length rest. rectangular (T (Suc k)) (n (Suc k)) (rest ! k)
             \<and> rectangular (T (Suc k)) (n (Suc k)) (pred (Suc k))
             \<and> (\<exists>r. files (prediction_file dataset (i + 1 + k) model) = Some (pred (Suc k) # r))"
  proof (intro allI impI)
    fix k assume "k < length rest"
    then have "Suc k < length (tr # rest)" by simp
    with Cons.prems show "rectangular (T (Suc k)) (n (Suc k)) (rest ! k)
             \<and> rectangular (T (Suc k)) (n (Suc k)) (pred (Suc k))
             \<and> (\<exists>r. files (prediction_file dataset (i + 1 + k) model) = Some (pred (Suc k) # r))"
      by fastforce
  qed
  have ih: "compute_rmses_from files dataset model (i + 1) rest =
           Inr (map (\<lambda>k. rmse_spec (T (Suc k)) (n (Suc k))
                            (\<lambda>t j. rest ! k ! t ! j / sum_list (rest ! k ! t))
                            (\<lambda>t j. pred (Suc k) ! t ! j)) [0..<length rest],
                map normalize_rows rest)"
    using Cons.IH [of "\<lambda>k. T (Suc k)" "\<lambda>k. n (Suc k)" "\<lambda>k. pred (Suc k)" "i + 1"] step by simp
  have first: "rmse (normalize_rows tr) (pred 0) =
           Inr (rmse_spec (T 0) (n 0) (\<lambda>t j. tr ! t ! j / sum_list (tr ! t)) (\<lambda>t j. pred 0 ! t ! j))"
    using h0 by (rule rmse_normalized_value)
  show ?case
    using r first ih
    by (simp add: pkl_load_def py_index_def bind_err_def Let_def map_upt_Suc del: upt_Suc)
qed

lemma compute_rmse_static_value:
  assumes "\<forall>k<length truth. rectangular (T k) (n k) (truth ! k)"
  shows "compute_rmse_static truth =
           Inr (map (\<lambda>k. rmse_spec (T k) (n k) (\<lambda>t j. truth ! k ! t ! j) (\<lambda>t j. truth ! k ! 0 ! j))
                  [0..<length truth])"
  using assms
proof (induction truth arbitrary: T n)
  case Nil
  then show ?case by simp
next
  case (Cons tr rest)
  from Cons.prems have h0: "rectangular (T 0) (n 0) tr" by auto
  have step: "\<forall>k<length rest. rectangular (T (Suc k)) (n (Suc k)) (rest ! k)"
    using Cons.prems by fastforce
  have ih: "compute_rmse_static rest =
           Inr (map (\<lambda>k. rmse_spec (T (Suc k)) (n (Suc k)) (\<lambda>t j. rest ! k ! t ! j)
                           (\<lambda>t j. rest ! k ! 0 ! j)) [0..<length rest])"
    using Cons.IH [of "\<lambda>k. T (Suc k)" "\<lambda>k. n (Suc k)"] step by simp
  show ?case
    using rmse_static_value [OF h0] ih
    by (simp add: bind_err_def map_upt_Suc del: upt_Suc)
qed


text \<open>
  C9.  For replicates of at least two timepoints whose cached predictions have the shape
  of their trajectories, \<^verbatim>\<open>compute_rmses\<close> returns for every replicate the square root
  of the mean, over the timepoints after the first and over all taxa, of the squared
  difference between the trajectory normalised per timepoint to relative abundance and
  the prediction (and leaves the trajectories normalised); \<^verbatim>\<open>compute_rmse_static\<close>
  returns the same error for the prediction that repeats the first timepoint of the
  trajectory at every timepoint; and a prediction equal to the normalised trajectory has
  the error \<open>0\<close>.
\<close>

theorem rmse_of_replicates:
  assumes "\<forall>k<length truth. trajectory_ok (T k) (n k) (truth ! k)
             \<and> rectangular (T k) (n k) (pred k)
             \<and> (\<exists>rest. files (prediction_file dataset k model) = Some (pred k # rest))"
  shows "compute_rmses files dataset model truth =
           Inr (map (\<lambda>k. rmse_spec (T k) (n k)
                            (\<lambda>t j. truth ! k ! t ! j / sum_list (truth ! k ! t))
                            (\<lambda>t j. pred k ! t ! j)) [0..<length truth],
                map normalize_rows truth)
       \<and> compute_rmse_static truth =
           Inr (map (\<lambda>k. rmse_spec (T k) (n k) (\<lambda>t j. truth ! k ! t ! j) (\<lambda>t j. truth ! k ! 0 ! j))
                  [0..<length truth])
       \<and> (\<forall>k<length truth. pred k = normalize_rows (truth ! k) \<longrightarrow>
             rmse_spec (T k) (n k) (\<lambda>t j. truth ! k ! t ! j / sum_list (truth ! k ! t))
               (\<lambda>t j. pred k ! t ! j) = 0)"
proof (intro conjI allI impI)
  have a: "\<forall>k<length truth. rectangular (T k) (n k) (truth ! k)
             \<and> rectangular (T k) (n k) (pred k)
             \<and> (\<exists>rest. files (prediction_file dataset (0 + k) model) = Some (pred k # rest))"
    using assms by (simp add: trajectory_ok_def)
  show "compute_rmses files dataset model truth =
           Inr (map (\<lambda>k. rmse_spec (T k) (n k)
                            (\<lambda>t j. truth ! k ! t ! j / sum_list (truth ! k ! t))
                            (\<lambda>t j. pred k ! t ! j)) [0..<length truth],
                map normalize_rows truth)"
    unfolding compute_rmses_def using a by (rule compute_rmses_from_value)
  have b: "\<forall>k<length truth. rectangular (T k) (n k) (truth ! k)"
    using assms by (simp add: trajectory_ok_def)
  then show "compute_rmse_static truth =
           Inr (map (\<lambda>k. rmse_spec (T k) (n k) (\<lambda>t j. truth ! k ! t ! j) (\<lambda>t j. truth ! k ! 0 ! j))
                  [0..<length truth])"
    by (rule compute_rmse_static_value)
  fix k assume k: "k < length truth" and p: "pred k = normalize_rows (truth ! k)"
  have r: "rectangular (T k) (n k) (truth ! k)" using b k by simp
  have "rmse_spec (T k) (n k) (\<lambda>t j. truth ! k ! t ! j / sum_list (truth ! k ! t))
               (\<lambda>t j. normalize_rows (truth ! k) ! t ! j)
        = rmse_spec (T k) (n k) (\<lambda>t j. truth ! k ! t ! j / sum_list (truth ! k ! t))
               (\<lambda>t j. truth ! k ! t ! j / sum_list (truth ! k ! t))"
    by (rule rmse_spec_cong) (simp_all add: normalize_rows_nth [OF r])
  then show "rmse_spec (T k) (n k) (\<lambda>t j. truth ! k ! t ! j / sum_list (truth ! k ! t))
               (\<lambda>t j. pred k ! t ! j) = 0"
    by (simp add: p rmse_spec_same)
qed

text \<open>
  The theorem at one replicate whose prediction is its normalised trajectory: the error
  of the model is \<open>0\<close>, the error of the constant baseline is \<open>sqrt 2\<close>.
\<close>

theorem rmse_of_replicates_witness:
  "trajectory_ok 2 2 example_truth \<and> rectangular 2 2 example_prediction
   \<and> example_pickles (prediction_file ''bucci_diet'' 0 ''clv'') = Some [example_prediction]
   \<and> example_prediction = normalize_rows example_truth
   \<and> compute_rmses example_pickles ''bucci_diet'' ''clv'' [example_truth]
       = Inr ([0], [example_prediction])
   \<and> compute_rmse_static [example_truth] = Inr [sqrt 2]"
proof -
  have ok: "trajectory_ok 2 2 example_truth"
    by (simp add: trajectory_ok_def rectangular_def example_truth_def)
  have rp: "rectangular 2 2 example_prediction"
    by (simp add: rectangular_def example_prediction_def)
  have fl: "example_pickles (prediction_file ''bucci_diet'' 0 ''clv'') = Some [example_prediction]"
    by (simp add: example_pickles_def prediction_file_def)
  have norm: "example_prediction = normalize_rows example_truth"
    by (simp add: example_prediction_def example_truth_def normalize_rows_def)
  have hyp: "\<forall>k<length [example_truth]. trajectory_ok 2 2 ([example_truth] ! k)
             \<and> rectangular 2 2 example_prediction
             \<and> (\<exists>rest. example_pickles (prediction_file ''bucci_diet'' k ''clv'')
                         = Some (example_prediction # rest))"
    using ok rp fl by simp
  note t = rmse_of_replicates [of "[example_truth]" "\<lambda>k. 2" "\<lambda>k. 2" "\<lambda>k. example_prediction"
      example_pickles "''bucci_diet''" "''clv''", OF hyp]
  have z: "rmse_spec 2 2 (\<lambda>t j. example_truth ! t ! j / sum_list (example_truth ! t))
               (\<lambda>t j. example_prediction ! t ! j) = 0"
    using t norm by simp
  have s: "rmse_spec 2 2 (\<lambda>t j. example_truth ! t ! j) (\<lambda>t j. example_truth ! 0 ! j) = sqrt 2"
    by (simp add: rmse_spec_def example_truth_def lessThan_Suc numeral_2_eq_2)
  have "compute_rmses example_pickles ''bucci_diet'' ''clv'' [example_truth]
       = Inr ([0], [example_prediction])"
    using t z norm by simp
  moreover have "compute_rmse_static [example_truth] = Inr [sqrt 2]"
    using t s by simp
  ultimately show ?thesis using ok rp fl norm by simp
qed

end
